theory Spec2Isabelle
  imports Complex_Main "HOL-Library.Char_ord" "HOL-Library.AList"
begin

chapter \<open>The Vector FX landing page script\<close>

text \<open>
  A shallow embedding of \<^verbatim>\<open>script.js\<close>. Strings are lists of \<^typ>\<open>char\<close>; the
  document is an explicit store of elements addressed by references; timers, console
  output, network requests and analytics calls are recorded in the page state; what the
  host decides (the outcome of \<^verbatim>\<open>fetch\<close>, the motion preference, the values drawn
  by \<^verbatim>\<open>Math.random\<close>) is passed in as an environment.
\<close>

section \<open>Regular expressions\<close>

text \<open>
  The fragment of regular expressions that \<^verbatim>\<open>emailRegex\<close> uses: character classes,
  sequencing, \<^verbatim>\<open>?\<close>, \<^verbatim>\<open>*\<close>, \<^verbatim>\<open>+\<close> and the bounded repetition
  \<^verbatim>\<open>{0,n}\<close>. The expression is anchored by \<^verbatim>\<open>^\<close> and \<^verbatim>\<open>$\<close> and carries no
  flag, so \<^verbatim>\<open>test\<close> succeeds exactly when the whole string matches; matching is
  computed with derivatives.
\<close>

datatype regex =
    Never
  | Epsilon
  | CharClass "char \<Rightarrow> bool"
  | Choice regex regex
  | Concat regex regex
  | Kleene regex
  | AtMost nat regex

definition Optional :: "regex \<Rightarrow> regex" where
  "Optional r = Choice r Epsilon"

definition OneOrMore :: "regex \<Rightarrow> regex" where
  "OneOrMore r = Concat r (Kleene r)"

fun nullable :: "regex \<Rightarrow> bool" where
  "nullable Never = False"
| "nullable Epsilon = True"
| "nullable (CharClass P) = False"
| "nullable (Choice r s) = (nullable r \<or> nullable s)"
| "nullable (Concat r s) = (nullable r \<and> nullable s)"
| "nullable (Kleene r) = True"
| "nullable (AtMost n r) = True"

fun deriv :: "char \<Rightarrow> regex \<Rightarrow> regex" where
  "deriv c Never = Never"
| "deriv c Epsilon = Never"
| "deriv c (CharClass P) = (if P c then Epsilon else Never)"
| "deriv c (Choice r s) = Choice (deriv c r) (deriv c s)"
| "deriv c (Concat r s) =
     (if nullable r then Choice (Concat (deriv c r) s) (deriv c s)
      else Concat (deriv c r) s)"
| "deriv c (Kleene r) = Concat (deriv c r) (Kleene r)"
| "deriv c (AtMost n r) =
     (case n of 0 \<Rightarrow> Never | Suc m \<Rightarrow> Concat (deriv c r) (AtMost m r))"

fun matches :: "regex \<Rightarrow> string \<Rightarrow> bool" where
  "matches r [] = nullable r"
| "matches r (c # cs) = matches (deriv c r) cs"

definition alnum :: "char \<Rightarrow> bool" where
  "alnum c \<longleftrightarrow> (CHR ''a'' \<le> c \<and> c \<le> CHR ''z'') \<or> (CHR ''A'' \<le> c \<and> c \<le> CHR ''Z'')
     \<or> (CHR ''0'' \<le> c \<and> c \<le> CHR ''9'')"

definition alnumHyphen :: "char \<Rightarrow> bool" where
  "alnumHyphen c \<longleftrightarrow> alnum c \<or> c = CHR ''-''"

definition localChar :: "char \<Rightarrow> bool" where
  "localChar c \<longleftrightarrow> alnum c \<or> c \<in> set ''.!#$%&'*+/=?^_`{|}~-''"

definition labelRegex :: regex where
  "labelRegex = Concat (CharClass alnum)
     (Optional (Concat (AtMost 61 (CharClass alnumHyphen)) (CharClass alnum)))"

definition emailRegex :: regex where
  "emailRegex =
     Concat (OneOrMore (CharClass localChar))
       (Concat (CharClass (\<lambda>c. c = CHR ''@''))
         (Concat labelRegex
           (Kleene (Concat (CharClass (\<lambda>c. c = CHR ''.'')) labelRegex))))"

definition regex_test :: "regex \<Rightarrow> string \<Rightarrow> bool" where
  "regex_test r s = matches r s"

definition isValidEmail :: "string \<Rightarrow> bool" where
  "isValidEmail email \<longleftrightarrow> regex_test emailRegex email \<and> length email \<le> 254"

definition domainRegex :: regex where
  "domainRegex = Concat labelRegex (Kleene (Concat (CharClass (\<lambda>c. c = CHR ''.'')) labelRegex))"

section \<open>The language of a regular expression\<close>

inductive_set star :: "string set \<Rightarrow> string set" for A :: "string set" where
  star_nil: "[] \<in> star A"
| star_app: "u \<in> A \<Longrightarrow> v \<in> star A \<Longrightarrow> u @ v \<in> star A"

definition conc :: "string set \<Rightarrow> string set \<Rightarrow> string set" where
  "conc A B = {u @ v | u v. u \<in> A \<and> v \<in> B}"

primrec upto_lang :: "nat \<Rightarrow> string set \<Rightarrow> string set" where
  "upto_lang 0 A = {[]}"
| "upto_lang (Suc n) A = insert [] (conc A (upto_lang n A))"

fun lang :: "regex \<Rightarrow> string set" where
  "lang Never = {}"
| "lang Epsilon = {[]}"
| "lang (CharClass P) = {[c] | c. P c}"
| "lang (Choice r s) = lang r \<union> lang s"
| "lang (Concat r s) = conc (lang r) (lang s)"
| "lang (Kleene r) = star (lang r)"
| "lang (AtMost n r) = upto_lang n (lang r)"

section \<open>The address shape of the specification\<close>

text \<open>
  The specification's words: a local part, \<^verbatim>\<open>@\<close>, and a domain that is a
  dot-separated sequence of labels; each label has 1 to 63 characters, all alphanumeric
  or hyphens, with hyphens only in the interior. The specification does not say which
  characters a local part may hold; it is taken as a non-empty string over the class of
  characters that the expression admits before the \<^verbatim>\<open>@\<close>.
\<close>

definition spec_label :: "string \<Rightarrow> bool" where
  "spec_label l \<longleftrightarrow>
     1 \<le> length l \<and> length l \<le> 63 \<and> (\<forall>c \<in> set l. alnum c \<or> c = CHR ''-'')
     \<and> hd l \<noteq> CHR ''-'' \<and> last l \<noteq> CHR ''-''"

fun dot_separated :: "string list \<Rightarrow> string" where
  "dot_separated [] = []"
| "dot_separated [l] = l"
| "dot_separated (l # ls) = l @ ''.'' @ dot_separated ls"

definition spec_shape :: "string \<Rightarrow> bool" where
  "spec_shape S \<longleftrightarrow>
     (\<exists>local_part labels.
        S = local_part @ ''@'' @ dot_separated labels
        \<and> local_part \<noteq> [] \<and> (\<forall>c \<in> set local_part. localChar c)
        \<and> labels \<noteq> [] \<and> (\<forall>l \<in> set labels. spec_label l))"

definition spec_address :: "string \<Rightarrow> bool" where
  "spec_address S \<longleftrightarrow> spec_shape S \<and> length S \<le> 254"

section \<open>String operations\<close>

text \<open>
  Strings are lists of \<^typ>\<open>char\<close>, one \<^typ>\<open>char\<close> for each code unit up to
  \<^verbatim>\<open>0xFF\<close>; code units above that belong to no character class of
  \<^const>\<open>emailRegex\<close> and are outside the alphabet of the model.
  \<^verbatim>\<open>String.prototype.trim\<close> removes white space and line terminators from both ends
  (within this alphabet: tab, line feed, vertical tab, form feed, carriage return, space
  and no-break space); \<^verbatim>\<open>split\<close> with a one-character separator always yields at
  least one piece; indexing an array out of range yields \<^verbatim>\<open>undefined\<close>, here
  \<^const>\<open>None\<close>; \<open>includesStr\<close> is the substring test of the attribute selector
  \<^verbatim>\<open>[style*="..."]\<close>.
\<close>

definition isWhiteSpace :: "char \<Rightarrow> bool" where
  "isWhiteSpace c \<longleftrightarrow>
     c \<in> {CHR 0x09, CHR 0x0A, CHR 0x0B, CHR 0x0C, CHR 0x0D, CHR '' '', CHR 0xA0}"

definition trim :: "string \<Rightarrow> string" where
  "trim s = rev (dropWhile isWhiteSpace (rev (dropWhile isWhiteSpace s)))"

fun split :: "char \<Rightarrow> string \<Rightarrow> string list" where
  "split sep [] = [[]]"
| "split sep (c # cs) =
     (if c = sep then [] # split sep cs
      else (case split sep cs of
              [] \<Rightarrow> [[c]]
            | seg # segs \<Rightarrow> (c # seg) # segs))"

definition elementAt :: "'a list \<Rightarrow> nat \<Rightarrow> 'a option" where
  "elementAt xs i = (if i < length xs then Some (xs ! i) else None)"

fun includesStr :: "string \<Rightarrow> string \<Rightarrow> bool" where
  "includesStr [] needle = (needle = [])"
| "includesStr (c # cs) needle = (take (length needle) (c # cs) = needle \<or> includesStr cs needle)"

section \<open>Elements and the page\<close>

text \<open>
  Elements live in a store indexed by references; \<^verbatim>\<open>createElement\<close> allocates the
  next free reference. The document lists the attached elements in document order, and
  \<open>descendants\<close> gives, for an element, its descendants in document order (the scope
  of \<^verbatim>\<open>form.querySelector\<close>). An inline style is a list of declarations; a value
  is text or a number with its unit, so that the numbers which \<^verbatim>\<open>createConfetti\<close>
  interpolates stay numbers. A numeric part holds only digits, a sign, a point and an
  exponent mark, hence a substring made of other letters lies in a textual part.

  Timers are recorded with their callback and their delay in milliseconds, in the order
  of the calls of \<^verbatim>\<open>setTimeout\<close>; the console, the requests sent by
  \<^verbatim>\<open>fetch\<close> and the calls of \<^verbatim>\<open>gtag\<close> are logs. The environment holds what the
  host decides at one submission: how \<^verbatim>\<open>fetch\<close> ends (a rejected promise, or a
  response with its \<^verbatim>\<open>ok\<close> flag), the motion preference, whether \<^verbatim>\<open>gtag\<close> is
  a function, the host name, and the successive values of \<^verbatim>\<open>Math.random\<close>, taken as
  real numbers.
\<close>

type_synonym ref = nat

datatype cssval =
    Text string
  | Px real
  | Vw real
  | Num real
  | Anim string real string

fun cssMentions :: "string \<Rightarrow> cssval \<Rightarrow> bool" where
  "cssMentions needle (Text s) = includesStr s needle"
| "cssMentions needle (Anim name seconds rest) = (includesStr name needle \<or> includesStr rest needle)"
| "cssMentions needle (Px x) = False"
| "cssMentions needle (Vw x) = False"
| "cssMentions needle (Num x) = False"

record element =
  localName :: string
  classList :: "string list"
  attributes :: "(string \<times> string) list"
  style :: "(string \<times> cssval) list"
  innerHTML :: string
  textContent :: string
  valueProp :: string
  disabled :: bool

definition newElement :: "string \<Rightarrow> element" where
  "newElement tag = \<lparr>localName = tag, classList = [], attributes = [], style = [],
     innerHTML = [], textContent = [], valueProp = [], disabled = False\<rparr>"

datatype callback =
    AddClass ref string
  | ShakeReset ref
  | RemoveElement ref
  | ConfettiCleanup

datatype handler = HandleFormSubmit ref ref

datatype exn = TypeError string | Error string

type_synonym eventData = "(string \<times> string option) list"

datatype consoleEntry =
    ConsoleError string exn
  | ConsoleLog string string eventData

record request =
  url :: string
  httpMethod :: string
  headers :: "(string \<times> string) list"
  body :: "(string \<times> string) list"

record intersectionObserver =
  threshold :: real
  rootMargin :: string
  targets :: "ref list"

record entry =
  target :: ref
  isIntersecting :: bool

record page =
  heap :: "ref \<Rightarrow> element"
  nextRef :: ref
  document :: "ref list"
  descendants :: "ref \<Rightarrow> ref list"
  hasIntersectionObserver :: bool
  observer :: "intersectionObserver option"
  listeners :: "(ref \<times> string \<times> handler) list"
  timers :: "(callback \<times> nat) list"
  activeElement :: "ref option"
  console :: "consoleEntry list"
  network :: "request list"
  gtagCalls :: "(string \<times> string \<times> eventData) list"

datatype fetchOutcome = NetworkError | Response bool

record env =
  fetchResult :: fetchOutcome
  reducedMotion :: bool
  gtagDefined :: bool
  hostname :: string
  random :: "nat \<Rightarrow> real"

record event =
  defaultPrevented :: bool

definition seq :: "('s \<Rightarrow> 's) list \<Rightarrow> 's \<Rightarrow> 's" where
  "seq steps s = fold (\<lambda>step acc. step acc) steps s"

definition modify :: "ref \<Rightarrow> (element \<Rightarrow> element) \<Rightarrow> page \<Rightarrow> page" where
  "modify r f p = p\<lparr>heap := (heap p)(r := f (heap p r))\<rparr>"

definition setAttribute :: "ref \<Rightarrow> string \<Rightarrow> string \<Rightarrow> page \<Rightarrow> page" where
  "setAttribute r k v = modify r (\<lambda>el. el\<lparr>attributes := AList.update k v (attributes el)\<rparr>)"

definition getAttribute :: "element \<Rightarrow> string \<Rightarrow> string option" where
  "getAttribute el k = map_of (attributes el) k"

definition setStyle :: "ref \<Rightarrow> string \<Rightarrow> cssval \<Rightarrow> page \<Rightarrow> page" where
  "setStyle r k v = modify r (\<lambda>el. el\<lparr>style := AList.update k v (style el)\<rparr>)"

definition clearStyle :: "ref \<Rightarrow> string \<Rightarrow> page \<Rightarrow> page" where
  "clearStyle r k = modify r (\<lambda>el. el\<lparr>style := AList.delete k (style el)\<rparr>)"

definition setCssText :: "ref \<Rightarrow> (string \<times> cssval) list \<Rightarrow> page \<Rightarrow> page" where
  "setCssText r decls = modify r (\<lambda>el. el\<lparr>style := decls\<rparr>)"

definition getStyle :: "element \<Rightarrow> string \<Rightarrow> cssval option" where
  "getStyle el k = map_of (style el) k"

definition classList_add :: "ref \<Rightarrow> string \<Rightarrow> page \<Rightarrow> page" where
  "classList_add r c =
     modify r (\<lambda>el. if c \<in> set (classList el) then el else el\<lparr>classList := classList el @ [c]\<rparr>)"

definition setClassName :: "ref \<Rightarrow> string \<Rightarrow> page \<Rightarrow> page" where
  "setClassName r c = modify r (\<lambda>el. el\<lparr>classList := [c]\<rparr>)"

definition setTextContent :: "ref \<Rightarrow> string \<Rightarrow> page \<Rightarrow> page" where
  "setTextContent r s = modify r (\<lambda>el. el\<lparr>textContent := s\<rparr>)"

definition setInnerHTML :: "ref \<Rightarrow> string \<Rightarrow> page \<Rightarrow> page" where
  "setInnerHTML r s = modify r (\<lambda>el. el\<lparr>innerHTML := s\<rparr>)"

definition setDisabled :: "ref \<Rightarrow> bool \<Rightarrow> page \<Rightarrow> page" where
  "setDisabled r b = modify r (\<lambda>el. el\<lparr>disabled := b\<rparr>)"

definition createElement :: "string \<Rightarrow> page \<Rightarrow> ref \<times> page" where
  "createElement tag p =
     (nextRef p, p\<lparr>heap := (heap p)(nextRef p := newElement tag), nextRef := Suc (nextRef p)\<rparr>)"

definition appendToBody :: "ref list \<Rightarrow> page \<Rightarrow> page" where
  "appendToBody rs p = p\<lparr>document := document p @ rs\<rparr>"

definition removeElement :: "ref \<Rightarrow> page \<Rightarrow> page" where
  "removeElement r p = p\<lparr>document := removeAll r (document p)\<rparr>"

definition focus :: "ref \<Rightarrow> page \<Rightarrow> page" where
  "focus r p = p\<lparr>activeElement := Some r\<rparr>"

definition setTimeout :: "callback \<Rightarrow> nat \<Rightarrow> page \<Rightarrow> page" where
  "setTimeout cb delay p = p\<lparr>timers := timers p @ [(cb, delay)]\<rparr>"

definition consoleError :: "string \<Rightarrow> exn \<Rightarrow> page \<Rightarrow> page" where
  "consoleError msg err p = p\<lparr>console := console p @ [ConsoleError msg err]\<rparr>"

definition fetch :: "request \<Rightarrow> page \<Rightarrow> page" where
  "fetch req p = p\<lparr>network := network p @ [req]\<rparr>"

definition addEventListener :: "ref \<Rightarrow> string \<Rightarrow> handler \<Rightarrow> page \<Rightarrow> page" where
  "addEventListener r type h p =
     (if (r, type, h) \<in> set (listeners p) then p
      else p\<lparr>listeners := listeners p @ [(r, type, h)]\<rparr>)"

definition getElementById :: "string \<Rightarrow> page \<Rightarrow> ref option" where
  "getElementById i p = find (\<lambda>r. getAttribute (heap p r) ''id'' = Some i) (document p)"

definition querySelectorAll :: "(element \<Rightarrow> bool) \<Rightarrow> page \<Rightarrow> ref list" where
  "querySelectorAll sel p = filter (\<lambda>r. sel (heap p r)) (document p)"

definition querySelectorIn :: "ref \<Rightarrow> (element \<Rightarrow> bool) \<Rightarrow> page \<Rightarrow> ref option" where
  "querySelectorIn scope sel p = find (\<lambda>r. sel (heap p r)) (descendants p scope)"

definition hasClass :: "string \<Rightarrow> element \<Rightarrow> bool" where
  "hasClass c el \<longleftrightarrow> c \<in> set (classList el)"

definition animatedSelector :: "element \<Rightarrow> bool" where
  "animatedSelector el \<longleftrightarrow>
     hasClass ''problem-item'' el \<or> hasClass ''feature-card'' el \<or> hasClass ''method-item'' el
     \<or> hasClass ''audience-card'' el \<or> hasClass ''comparison-col'' el"

definition emailInputSelector :: "element \<Rightarrow> bool" where
  "emailInputSelector el \<longleftrightarrow> localName el = ''input'' \<and> getAttribute el ''type'' = Some ''email''"

definition submitButtonSelector :: "element \<Rightarrow> bool" where
  "submitButtonSelector el \<longleftrightarrow> localName el = ''button'' \<and> getAttribute el ''type'' = Some ''submit''"

definition styleContains :: "string \<Rightarrow> element \<Rightarrow> bool" where
  "styleContains needle el \<longleftrightarrow>
     (\<exists>(k, v) \<in> set (style el). includesStr k needle \<or> cssMentions needle v)"

section \<open>Scroll animations\<close>

text \<open>
  \<^verbatim>\<open>initScrollAnimations\<close> and the callback it gives to the observer. The callback
  receives a batch of entries; \<open>forEachEntry\<close> is its \<^verbatim>\<open>forEach\<close> loop, whose index
  counts every entry of the batch.
\<close>

definition observerOptions :: intersectionObserver where
  "observerOptions = \<lparr>threshold = 0.1, rootMargin = ''0px 0px -50px 0px'', targets = []\<rparr>"

definition observe :: "ref \<Rightarrow> page \<Rightarrow> page" where
  "observe el p =
     p\<lparr>observer := map_option
        (\<lambda>ob. if el \<in> set (targets ob) then ob else ob\<lparr>targets := targets ob @ [el]\<rparr>)
        (observer p)\<rparr>"

definition unobserve :: "ref \<Rightarrow> page \<Rightarrow> page" where
  "unobserve el p =
     p\<lparr>observer := map_option (\<lambda>ob. ob\<lparr>targets := removeAll el (targets ob)\<rparr>) (observer p)\<rparr>"

fun forEachEntry :: "nat \<Rightarrow> entry list \<Rightarrow> page \<Rightarrow> page" where
  "forEachEntry index [] p = p"
| "forEachEntry index (entry # rest) p =
     forEachEntry (Suc index) rest
       (if isIntersecting entry then
          (let delay = min (index * 100) 500
           in seq [setTimeout (AddClass (target entry) ''visible'') delay,
                   unobserve (target entry)] p)
        else p)"

definition observerCallback :: "entry list \<Rightarrow> page \<Rightarrow> page" where
  "observerCallback entries p = forEachEntry 0 entries p"

definition initScrollAnimations :: "page \<Rightarrow> page" where
  "initScrollAnimations p =
     (if \<not> hasIntersectionObserver p then
        fold (\<lambda>el. seq [setStyle el ''opacity'' (Text ''1''),
                        setStyle el ''transform'' (Text ''none'')])
          (querySelectorAll (hasClass ''animate-on-scroll'') p) p
      else
        let animatedElements = querySelectorAll animatedSelector p
        in seq [fold (\<lambda>el. classList_add el ''animate-on-scroll'') animatedElements,
                (\<lambda>q. q\<lparr>observer := Some observerOptions\<rparr>),
                fold observe animatedElements] p)"

section \<open>Feedback, confetti, analytics\<close>

text \<open>
  Iteration \<open>i\<close> of the loop of \<^verbatim>\<open>createConfetti\<close> draws six random numbers, in
  the order of the source: size, duration, colour, horizontal position, opacity, shape.
  \<open>runCallback\<close> is what each kind of scheduled callback does when its timer fires.
\<close>

definition shakeElement :: "ref \<Rightarrow> page \<Rightarrow> page" where
  "shakeElement element =
     seq [setStyle element ''animation'' (Text ''shake 0.5s ease''),
          setStyle element ''border-color'' (Text ''#ef4444''),
          setAttribute element ''aria-invalid'' ''true'',
          setTimeout (ShakeReset element) 500]"

definition announceToScreenReader :: "string \<Rightarrow> page \<Rightarrow> page" where
  "announceToScreenReader message p =
     (let (announcement, p1) = createElement ''div'' p
      in seq [setAttribute announcement ''role'' ''status'',
              setAttribute announcement ''aria-live'' ''polite'',
              setAttribute announcement ''aria-atomic'' ''true'',
              setClassName announcement ''visually-hidden'',
              setTextContent announcement message,
              appendToBody [announcement],
              setTimeout (RemoveElement announcement) 1000] p1)"

definition prefersReducedMotion :: "env \<Rightarrow> bool" where
  "prefersReducedMotion ev = reducedMotion ev"

definition colors :: "string list" where
  "colors = [''#10b981'', ''#34d399'', ''#6ee7b7'', ''#ffffff'']"

definition confettiCount :: nat where
  "confettiCount = 50"

definition confettiStyle :: "(nat \<Rightarrow> real) \<Rightarrow> nat \<Rightarrow> (string \<times> cssval) list" where
  "confettiStyle rnd i =
     (let size = rnd (6 * i) * 10 + 5;
          duration = rnd (6 * i + 1) * 2 + 2;
          colorIndex = nat \<lfloor>rnd (6 * i + 2) * real (length colors)\<rfloor>
      in [(''position'', Text ''fixed''),
          (''width'', Px size),
          (''height'', Px size),
          (''background'', Text (if colorIndex < length colors then colors ! colorIndex
                                  else ''undefined'')),
          (''left'', Vw (rnd (6 * i + 3) * 100)),
          (''top'', Px (- 20)),
          (''opacity'', Num (rnd (6 * i + 4) * 0.7 + 0.3)),
          (''border-radius'', Text (if rnd (6 * i + 5) > 0.5 then ''50%'' else ''0'')),
          (''pointer-events'', Text ''none''),
          (''z-index'', Text ''9999''),
          (''animation'', Anim ''confettiFall'' duration ''linear forwards'')])"

function confettiLoop :: "(nat \<Rightarrow> real) \<Rightarrow> nat \<Rightarrow> ref list \<Rightarrow> page \<Rightarrow> ref list \<times> page" where
  "confettiLoop rnd i fragment p =
     (if i < confettiCount then
        (let (confetti, p1) = createElement ''div'' p;
             p2 = seq [setCssText confetti (confettiStyle rnd i),
                       setAttribute confetti ''aria-hidden'' ''true''] p1
         in confettiLoop rnd (Suc i) (fragment @ [confetti]) p2)
      else (fragment, p))"
  by pat_completeness auto
termination
  by (relation "measure (\<lambda>(rnd, i, fragment, p). confettiCount - i)") auto

declare confettiLoop.simps [simp del]

definition createConfetti :: "(nat \<Rightarrow> real) \<Rightarrow> page \<Rightarrow> page" where
  "createConfetti rnd p =
     (let (fragment, p1) = confettiLoop rnd 0 [] p
      in seq [appendToBody fragment, setTimeout ConfettiCleanup 4000] p1)"

definition runCallback :: "callback \<Rightarrow> page \<Rightarrow> page" where
  "runCallback cb p =
     (case cb of
        AddClass r c \<Rightarrow> classList_add r c p
      | ShakeReset r \<Rightarrow>
          seq [clearStyle r ''animation'', clearStyle r ''border-color'',
               setAttribute r ''aria-invalid'' ''false''] p
      | RemoveElement r \<Rightarrow> removeElement r p
      | ConfettiCleanup \<Rightarrow>
          fold removeElement (querySelectorAll (styleContains ''confettiFall'') p) p)"

definition trackEvent :: "env \<Rightarrow> string \<Rightarrow> eventData \<Rightarrow> page \<Rightarrow> page" where
  "trackEvent ev eventName eventData =
     seq [(\<lambda>p. if gtagDefined ev
                then p\<lparr>gtagCalls := gtagCalls p @ [(''event'', eventName, eventData)]\<rparr> else p),
          (\<lambda>p. if hostname ev = ''localhost'' \<or> hostname ev = ''127.0.0.1''
                then p\<lparr>console := console p @ [ConsoleLog ''Track Event:'' eventName eventData]\<rparr>
                else p)]"

section \<open>Waitlist form\<close>

text \<open>
  \<^verbatim>\<open>handleFormSubmit\<close> is a closure over the form and the success panel, which are
  parameters here. It is asynchronous with a single \<^verbatim>\<open>await\<close>, on \<^verbatim>\<open>fetch\<close>; the
  model runs the part before and the part after the \<^verbatim>\<open>await\<close> as one step, with the
  outcome of the request taken from the environment. \<open>submitTry\<close> is the body of the
  \<^verbatim>\<open>try\<close> block: it returns the exception thrown, if any, with the page as it
  was at the throw. A missing email field or submit button makes the handler throw a
  \<^verbatim>\<open>TypeError\<close> outside the \<^verbatim>\<open>try\<close> block, before it has changed the page.
\<close>

definition formAction :: "ref \<Rightarrow> page \<Rightarrow> string" where
  "formAction form p = (case getAttribute (heap p form) ''action'' of None \<Rightarrow> [] | Some a \<Rightarrow> a)"

definition formData :: "ref \<Rightarrow> page \<Rightarrow> (string \<times> string) list" where
  "formData form p =
     concat (map (\<lambda>r. case getAttribute (heap p r) ''name'' of
                         None \<Rightarrow> []
                       | Some n \<Rightarrow> [(n, valueProp (heap p r))])
                 (descendants p form))"

definition submitTry :: "ref \<Rightarrow> ref \<Rightarrow> env \<Rightarrow> string \<Rightarrow> page \<Rightarrow> exn option \<times> page" where
  "submitTry form successMessage ev email p =
     (let p1 = fetch \<lparr>url = formAction form p, httpMethod = ''POST'',
                      headers = [(''Accept'', ''application/json'')],
                      body = formData form p\<rparr> p
      in case fetchResult ev of
           NetworkError \<Rightarrow> (Some (TypeError ''Failed to fetch''), p1)
         | Response ok \<Rightarrow>
             if \<not> ok then (Some (Error ''Form submission failed''), p1)
             else (None,
               seq [setStyle form ''display'' (Text ''none''),
                    classList_add successMessage ''show'',
                    announceToScreenReader
                      ''Success! You're on the waitlist. We'll be in touch soon.'',
                    (if \<not> prefersReducedMotion ev then createConfetti (random ev) else id),
                    trackEvent ev ''waitlist_signup''
                      [(''email_domain'', elementAt (split CHR ''@'' email) 1)]] p1))"

definition handleFormSubmit :: "ref \<Rightarrow> ref \<Rightarrow> env \<Rightarrow> event \<Rightarrow> page \<Rightarrow> event \<times> (exn + page)" where
  "handleFormSubmit form successMessage ev e p =
     (e\<lparr>defaultPrevented := True\<rparr>,
      case querySelectorIn form emailInputSelector p of
        None \<Rightarrow> Inl (TypeError ''emailInput is null'')
      | Some emailInput \<Rightarrow>
          (let email = trim (valueProp (heap p emailInput))
           in if email = [] \<or> \<not> isValidEmail email then
                Inr (seq [shakeElement emailInput,
                          focus emailInput,
                          announceToScreenReader ''Please enter a valid email address''] p)
              else
                (case querySelectorIn form submitButtonSelector p of
                   None \<Rightarrow> Inl (TypeError ''submitBtn is null'')
                 | Some submitBtn \<Rightarrow>
                     (let originalButtonContent = innerHTML (heap p submitBtn);
                          p1 = seq [setDisabled submitBtn True,
                                    setAttribute submitBtn ''aria-busy'' ''true'',
                                    setInnerHTML submitBtn ''<span>Joining...</span>''] p
                      in case submitTry form successMessage ev email p1 of
                           (None, q) \<Rightarrow> Inr q
                         | (Some error, q) \<Rightarrow>
                             Inr (seq [consoleError ''Form submission error:'' error,
                                       setDisabled submitBtn False,
                                       setAttribute submitBtn ''aria-busy'' ''false'',
                                       setInnerHTML submitBtn originalButtonContent,
                                       announceToScreenReader
                                         ''There was an error. Please try again.''] q)))))"

definition initWaitlistForm :: "page \<Rightarrow> page" where
  "initWaitlistForm p =
     (case (getElementById ''waitlistForm'' p, getElementById ''waitlistSuccess'' p) of
        (Some form, Some successMessage) \<Rightarrow>
          addEventListener form ''submit'' (HandleFormSubmit form successMessage) p
      | _ \<Rightarrow> p)"

fun dispatchSubmit :: "(ref \<times> string \<times> handler) list \<Rightarrow> ref \<Rightarrow> env \<Rightarrow> event \<Rightarrow> page \<Rightarrow> event \<times> page" where
  "dispatchSubmit [] tgt ev e p = (e, p)"
| "dispatchSubmit ((r, type, HandleFormSubmit form successMessage) # ls) tgt ev e p =
     (if r = tgt \<and> type = ''submit'' then
        (case handleFormSubmit form successMessage ev e p of
           (e', Inl err) \<Rightarrow> dispatchSubmit ls tgt ev e' p
         | (e', Inr q) \<Rightarrow> dispatchSubmit ls tgt ev e' q)
      else dispatchSubmit ls tgt ev e p)"

section \<open>Bootstrap\<close>

text \<open>
  \<^verbatim>\<open>init\<close> calls the six initializers in one \<^verbatim>\<open>try\<close> block and logs what it
  catches. Whether an initializer throws depends on the host, so \<open>init\<close> takes the six
  initializers as parameters, each returning the exception it threw, if any, with the
  page as it left it; \<open>returning\<close> turns a model that always returns into such a
  parameter.
\<close>

type_synonym initializer = "page \<Rightarrow> exn option \<times> page"

definition returning :: "(page \<Rightarrow> page) \<Rightarrow> initializer" where
  "returning f p = (None, f p)"

fun tryBlock :: "initializer list \<Rightarrow> page \<Rightarrow> exn option \<times> page" where
  "tryBlock [] p = (None, p)"
| "tryBlock (f # fs) p =
     (case f p of
        (Some error, q) \<Rightarrow> (Some error, q)
      | (None, q) \<Rightarrow> tryBlock fs q)"

definition init ::
  "initializer \<Rightarrow> initializer \<Rightarrow> initializer \<Rightarrow> initializer \<Rightarrow> initializer \<Rightarrow> initializer
     \<Rightarrow> page \<Rightarrow> page" where
  "init scrollAnimations waitlistForm smoothScroll navbarScroll currentYear keyboardNavigation p =
     (case tryBlock [scrollAnimations, waitlistForm, smoothScroll, navbarScroll, currentYear,
                     keyboardNavigation] p of
        (None, q) \<Rightarrow> q
      | (Some error, q) \<Rightarrow> consoleError ''Vector FX: Initialization error'' error q)"

section \<open>A concrete page\<close>

text \<open>
  A small document used to run the definitions: the waitlist form (0) with its email
  field (1) and submit button (2), the success panel (3), and two content elements
  (4 and 5), of which only the second carries the marker class in its markup.
\<close>

definition exampleHeap :: "string \<Rightarrow> ref \<Rightarrow> element" where
  "exampleHeap v r =
     (if r = 0 then (newElement ''form'')\<lparr>attributes :=
          [(''id'', ''waitlistForm''), (''action'', ''https://formspree.io/f/abc'')]\<rparr>
      else if r = 1 then (newElement ''input'')\<lparr>attributes :=
          [(''type'', ''email''), (''name'', ''email'')], valueProp := v\<rparr>
      else if r = 2 then (newElement ''button'')\<lparr>attributes := [(''type'', ''submit'')],
          innerHTML := ''Join''\<rparr>
      else if r = 3 then (newElement ''div'')\<lparr>attributes := [(''id'', ''waitlistSuccess'')]\<rparr>
      else if r = 4 then (newElement ''div'')\<lparr>classList := [''feature-card'']\<rparr>
      else if r = 5 then (newElement ''div'')\<lparr>classList := [''problem-item'', ''animate-on-scroll'']\<rparr>
      else newElement ''div'')"

definition examplePage :: "string \<Rightarrow> page" where
  "examplePage v =
     \<lparr>heap = exampleHeap v, nextRef = 6, document = [0, 1, 2, 3, 4, 5],
      descendants = (\<lambda>r. if r = 0 then [1, 2] else []),
      hasIntersectionObserver = True, observer = None, listeners = [], timers = [],
      activeElement = None, console = [], network = [], gtagCalls = []\<rparr>"

definition exampleEnv :: "fetchOutcome \<Rightarrow> bool \<Rightarrow> env" where
  "exampleEnv outcome motion =
     \<lparr>fetchResult = outcome, reducedMotion = motion, gtagDefined = True,
      hostname = ''localhost'', random = (\<lambda>n. 1 / 2)\<rparr>"

definition exampleBatch :: "entry list" where
  "exampleBatch = [\<lparr>target = 4, isIntersecting = False\<rparr>, \<lparr>target = 5, isIntersecting = True\<rparr>]"

text \<open>The timer that the observer callback schedules for the entry at a batch index.\<close>

definition staggerTimer :: "nat \<times> entry \<Rightarrow> callback \<times> nat" where
  "staggerTimer ie = (AddClass (target (snd ie)) ''visible'', min (fst ie * 100) 500)"

text \<open>The body of the fallback loop of \<^const>\<open>initScrollAnimations\<close>, named for the proofs.\<close>

definition revealNow :: "ref \<Rightarrow> page \<Rightarrow> page" where
  "revealNow el = seq [setStyle el ''opacity'' (Text ''1''), setStyle el ''transform'' (Text ''none'')]"

text \<open>The element that \<^const>\<open>announceToScreenReader\<close> builds for a message.\<close>

definition announcementElement :: "string \<Rightarrow> element" where
  "announcementElement message =
     (newElement ''div'')\<lparr>classList := [''visually-hidden''],
        attributes := [(''role'', ''status''), (''aria-live'', ''polite''), (''aria-atomic'', ''true'')],
        textContent := message\<rparr>"

text \<open>The element that iteration \<open>i\<close> of the loop of \<^const>\<open>createConfetti\<close> builds.\<close>

definition confettiElement :: "(nat \<Rightarrow> real) \<Rightarrow> nat \<Rightarrow> element" where
  "confettiElement rnd i =
     (newElement ''div'')\<lparr>style := confettiStyle rnd i, attributes := [(''aria-hidden'', ''true'')]\<rparr>"

section \<open>Runs of the page\<close>

text \<open>
  What can happen to the page after initialisation: a submit event reaches the handler
  (with the host's environment at that moment), a timer callback fires, or the observer
  reports a batch of entries. A handler that throws leaves the page as it was. The
  relation \<open>noNewConfetti\<close> between the page before and after a step says that no element
  of the later document matches the cleanup selector unless it already did.
\<close>

datatype step = Submit env event | Timer callback | Intersection "entry list"

fun runStep :: "ref \<Rightarrow> ref \<Rightarrow> step \<Rightarrow> page \<Rightarrow> page" where
  "runStep form successMessage (Submit ev e) p =
     (case handleFormSubmit form successMessage ev e p of
        (e', Inl err) \<Rightarrow> p
      | (e', Inr q) \<Rightarrow> q)"
| "runStep form successMessage (Timer cb) p = runCallback cb p"
| "runStep form successMessage (Intersection entries) p = observerCallback entries p"

definition run :: "ref \<Rightarrow> ref \<Rightarrow> step list \<Rightarrow> page \<Rightarrow> page" where
  "run form successMessage steps p = fold (runStep form successMessage) steps p"

definition confettiInDocument :: "page \<Rightarrow> ref list" where
  "confettiInDocument p = querySelectorAll (styleContains ''confettiFall'') p"

definition documentFresh :: "page \<Rightarrow> bool" where
  "documentFresh p \<longleftrightarrow> (\<forall>r \<in> set (document p). r < nextRef p)"

definition noNewConfetti :: "page \<Rightarrow> page \<Rightarrow> bool" where
  "noNewConfetti p q \<longleftrightarrow>
     nextRef p \<le> nextRef q
     \<and> (\<forall>r < nextRef p. styleContains ''confettiFall'' (heap q r)
            \<longrightarrow> styleContains ''confettiFall'' (heap p r))
     \<and> (\<forall>r \<in> set (document q). r \<in> set (document p)
            \<or> (nextRef p \<le> r \<and> r < nextRef q \<and> \<not> styleContains ''confettiFall'' (heap q r)))"

section \<open>Correctness of the matcher\<close>

lemma nil_in_upto_lang: "[] \<in> upto_lang n A"
  by (cases n) simp_all

lemma nullable_lang: "nullable r \<longleftrightarrow> [] \<in> lang r"
  by (induction r) (auto simp: conc_def nil_in_upto_lang intro: star.star_nil)

lemma cons_in_conc:
  "c # w \<in> conc A B \<longleftrightarrow>
     (\<exists>u v. w = u @ v \<and> c # u \<in> A \<and> v \<in> B) \<or> ([] \<in> A \<and> c # w \<in> B)"
  unfolding conc_def by (auto simp: Cons_eq_append_conv)

lemma star_cons_split:
  "x \<in> star A \<Longrightarrow> x = c # w \<Longrightarrow> \<exists>u v. w = u @ v \<and> c # u \<in> A \<and> v \<in> star A"
proof (induction arbitrary: w rule: star.induct)
  case star_nil
  then show ?case by simp
next
  case (star_app u v)
  show ?case
  proof (cases u)
    case Nil
    with star_app show ?thesis by simp
  next
    case (Cons d u')
    with star_app.prems have "d = c" "w = u' @ v" by simp_all
    with Cons star_app.hyps show ?thesis by blast
  qed
qed

lemma cons_in_star:
  "c # w \<in> star A \<longleftrightarrow> (\<exists>u v. w = u @ v \<and> c # u \<in> A \<and> v \<in> star A)"
proof
  assume "c # w \<in> star A"
  then show "\<exists>u v. w = u @ v \<and> c # u \<in> A \<and> v \<in> star A"
    by (rule star_cons_split) simp
next
  assume "\<exists>u v. w = u @ v \<and> c # u \<in> A \<and> v \<in> star A"
  then obtain u v where "w = u @ v" "c # u \<in> A" "v \<in> star A" by blast
  then show "c # w \<in> star A"
    using star.star_app [of "c # u" A v] by simp
qed

lemma conc_mono: "B \<subseteq> C \<Longrightarrow> conc A B \<subseteq> conc A C"
  unfolding conc_def by blast

lemma upto_lang_mono: "upto_lang n A \<subseteq> upto_lang (Suc n) A"
proof (induction n)
  case 0
  show ?case by simp
next
  case (Suc k)
  have "conc A (upto_lang k A) \<subseteq> conc A (upto_lang (Suc k) A)"
    using Suc by (rule conc_mono)
  then have "insert [] (conc A (upto_lang k A)) \<subseteq> insert [] (conc A (upto_lang (Suc k) A))"
    by blast
  then show ?case by (simp only: upto_lang.simps)
qed

lemma cons_in_upto_lang:
  "c # w \<in> upto_lang n A \<longleftrightarrow>
     (\<exists>m u v. n = Suc m \<and> w = u @ v \<and> c # u \<in> A \<and> v \<in> upto_lang m A)"
proof (induction n)
  case 0
  show ?case by simp
next
  case (Suc n)
  have step: "c # w \<in> upto_lang (Suc n) A \<longleftrightarrow>
      (\<exists>u v. w = u @ v \<and> c # u \<in> A \<and> v \<in> upto_lang n A) \<or> ([] \<in> A \<and> c # w \<in> upto_lang n A)"
    by (simp only: upto_lang.simps insert_iff cons_in_conc) simp
  have absorb: "\<exists>u v. w = u @ v \<and> c # u \<in> A \<and> v \<in> upto_lang n A"
    if "c # w \<in> upto_lang n A"
  proof -
    from that Suc.IH obtain m u v
      where m: "n = Suc m" "w = u @ v" "c # u \<in> A" "v \<in> upto_lang m A"
      by blast
    from m(4) upto_lang_mono [of m A] m(1) have "v \<in> upto_lang n A" by blast
    with m(2,3) show ?thesis by blast
  qed
  show ?case
    unfolding step using absorb by blast
qed

lemma deriv_lang: "w \<in> lang (deriv c r) \<longleftrightarrow> c # w \<in> lang r"
proof (induction r arbitrary: w)
  case (Concat r s)
  then show ?case
    by (auto simp: cons_in_conc nullable_lang) (auto simp: conc_def)
next
  case (Kleene r)
  then show ?case by (auto simp: cons_in_star conc_def)
next
  case (AtMost n r)
  show ?case
  proof (cases n)
    case 0
    then show ?thesis by simp
  next
    case (Suc m)
    have "w \<in> lang (deriv c (AtMost n r)) \<longleftrightarrow>
            (\<exists>u v. w = u @ v \<and> u \<in> lang (deriv c r) \<and> v \<in> upto_lang m (lang r))"
      using Suc by (auto simp: conc_def)
    also have "\<dots> \<longleftrightarrow> (\<exists>u v. w = u @ v \<and> c # u \<in> lang r \<and> v \<in> upto_lang m (lang r))"
      using AtMost.IH by simp
    also have "\<dots> \<longleftrightarrow> c # w \<in> lang (AtMost n r)"
      using Suc by (simp add: cons_in_upto_lang del: upto_lang.simps)
    finally show ?thesis .
  qed
qed auto

lemma matches_lang: "matches r w \<longleftrightarrow> w \<in> lang r"
  by (induction w arbitrary: r) (simp_all add: nullable_lang deriv_lang)

section \<open>The language of the email expression\<close>

lemma in_conc: "w \<in> conc A B \<longleftrightarrow> (\<exists>u v. w = u @ v \<and> u \<in> A \<and> v \<in> B)"
  unfolding conc_def by blast

lemma star_class: "w \<in> star {[c] | c. P c} \<longleftrightarrow> (\<forall>c \<in> set w. P c)"
proof
  assume "w \<in> star {[c] | c. P c}"
  then show "\<forall>c \<in> set w. P c"
    by (induction rule: star.induct) auto
next
  assume "\<forall>c \<in> set w. P c"
  then show "w \<in> star {[c] | c. P c}"
  proof (induction w)
    case Nil
    show ?case by (rule star.star_nil)
  next
    case (Cons a w)
    then have "[a] \<in> {[c] | c. P c}" "w \<in> star {[c] | c. P c}" by simp_all
    then have "[a] @ w \<in> star {[c] | c. P c}" by (rule star.star_app)
    then show ?case by simp
  qed
qed

lemma upto_class:
  "w \<in> upto_lang n {[c] | c. P c} \<longleftrightarrow> length w \<le> n \<and> (\<forall>c \<in> set w. P c)"
proof (induction w arbitrary: n)
  case Nil
  show ?case by (simp add: nil_in_upto_lang)
next
  case (Cons a w)
  have "a # w \<in> upto_lang n {[c] | c. P c} \<longleftrightarrow>
          (\<exists>m. n = Suc m \<and> P a \<and> w \<in> upto_lang m {[c] | c. P c})"
    by (subst cons_in_upto_lang) auto
  also have "\<dots> \<longleftrightarrow> (\<exists>m. n = Suc m \<and> P a \<and> length w \<le> m \<and> (\<forall>c \<in> set w. P c))"
    by (simp add: Cons.IH)
  also have "\<dots> \<longleftrightarrow> length (a # w) \<le> n \<and> (\<forall>c \<in> set (a # w). P c)"
    by (cases n) auto
  finally show ?case .
qed

lemma conc_class_left:
  "w \<in> conc {[c] | c. P c} B \<longleftrightarrow> (\<exists>c v. w = c # v \<and> P c \<and> v \<in> B)"
proof
  assume "w \<in> conc {[c] | c. P c} B"
  then show "\<exists>c v. w = c # v \<and> P c \<and> v \<in> B"
    unfolding conc_def by auto
next
  assume "\<exists>c v. w = c # v \<and> P c \<and> v \<in> B"
  then obtain c v where "w = [c] @ v" "[c] \<in> {[c] | c. P c}" "v \<in> B" by auto
  then show "w \<in> conc {[c] | c. P c} B"
    unfolding conc_def by blast
qed

lemma conc_class_right:
  "w \<in> conc A {[c] | c. P c} \<longleftrightarrow> (\<exists>u d. w = u @ [d] \<and> u \<in> A \<and> P d)"
  unfolding conc_def by auto

lemma conc_single: "w \<in> conc {[d]} B \<longleftrightarrow> (\<exists>v. w = d # v \<and> v \<in> B)"
  using conc_class_left [of w "\<lambda>c. c = d" B] by simp

lemma hyphen_not_alnum: "\<not> alnum CHR ''-''"
  by (simp add: alnum_def)

lemma label_shape:
  "spec_label w \<longleftrightarrow>
     (\<exists>c t. w = c # t \<and> alnum c \<and>
        (t = [] \<or> (\<exists>m d. t = m @ [d] \<and> length m \<le> 61 \<and> (\<forall>x \<in> set m. alnumHyphen x) \<and> alnum d)))"
proof
  assume s: "spec_label w"
  then obtain c t where w: "w = c # t" by (cases w) (auto simp: spec_label_def)
  from s w have c: "alnum c" by (auto simp: spec_label_def)
  show "\<exists>c t. w = c # t \<and> alnum c \<and>
        (t = [] \<or> (\<exists>m d. t = m @ [d] \<and> length m \<le> 61 \<and> (\<forall>x \<in> set m. alnumHyphen x) \<and> alnum d))"
  proof (cases "t = []")
    case True
    with w c show ?thesis by blast
  next
    case False
    then have t: "t = butlast t @ [last t]" by simp
    from s w False have "last t \<noteq> CHR ''-''" "last t \<in> set w"
      by (auto simp: spec_label_def)
    with s have d: "alnum (last t)" by (auto simp: spec_label_def)
    from s w have "length t \<le> 62" by (simp add: spec_label_def)
    then have len: "length (butlast t) \<le> 61" by simp
    have "\<forall>x \<in> set (butlast t). alnumHyphen x"
      using s w by (auto simp: spec_label_def alnumHyphen_def dest: in_set_butlastD)
    with w c t d len show ?thesis by blast
  qed
next
  assume "\<exists>c t. w = c # t \<and> alnum c \<and>
        (t = [] \<or> (\<exists>m d. t = m @ [d] \<and> length m \<le> 61 \<and> (\<forall>x \<in> set m. alnumHyphen x) \<and> alnum d))"
  then obtain c t where w: "w = c # t" and c: "alnum c"
    and t: "t = [] \<or> (\<exists>m d. t = m @ [d] \<and> length m \<le> 61 \<and> (\<forall>x \<in> set m. alnumHyphen x) \<and> alnum d)"
    by blast
  from t show "spec_label w"
  proof
    assume "t = []"
    with w c show ?thesis using hyphen_not_alnum by (auto simp: spec_label_def)
  next
    assume "\<exists>m d. t = m @ [d] \<and> length m \<le> 61 \<and> (\<forall>x \<in> set m. alnumHyphen x) \<and> alnum d"
    then obtain m d where "t = m @ [d]" "length m \<le> 61" "\<forall>x \<in> set m. alnumHyphen x" "alnum d"
      by blast
    with w c show ?thesis using hyphen_not_alnum by (auto simp: spec_label_def alnumHyphen_def)
  qed
qed

lemma lang_labelRegex: "w \<in> lang labelRegex \<longleftrightarrow> spec_label w"
proof -
  have inner: "t \<in> conc (upto_lang 61 {[c] | c. alnumHyphen c}) {[c] | c. alnum c} \<longleftrightarrow>
      (\<exists>m d. t = m @ [d] \<and> length m \<le> 61 \<and> (\<forall>x \<in> set m. alnumHyphen x) \<and> alnum d)" for t
    by (simp add: conc_class_right upto_class)
  have "w \<in> lang labelRegex \<longleftrightarrow>
      (\<exists>c t. w = c # t \<and> alnum c \<and>
        (t \<in> conc (upto_lang 61 {[c] | c. alnumHyphen c}) {[c] | c. alnum c} \<or> t = []))"
    by (simp only: labelRegex_def Optional_def lang.simps conc_class_left Un_iff singleton_iff)
  then show ?thesis
    unfolding inner label_shape by blast
qed

lemma star_dot_labels:
  "w \<in> star {CHR ''.'' # l | l. spec_label l} \<longleftrightarrow>
     (\<exists>ls. (\<forall>l \<in> set ls. spec_label l) \<and> w = concat (map ((#) CHR ''.'') ls))"
proof
  assume "w \<in> star {CHR ''.'' # l | l. spec_label l}"
  then show "\<exists>ls. (\<forall>l \<in> set ls. spec_label l) \<and> w = concat (map ((#) CHR ''.'') ls)"
  proof (induction rule: star.induct)
    case star_nil
    have "(\<forall>l \<in> set []. spec_label l) \<and> [] = concat (map ((#) CHR ''.'') [])" by simp
    then show ?case by blast
  next
    case (star_app u v)
    then obtain l ls where "u = CHR ''.'' # l" "spec_label l"
      "\<forall>l \<in> set ls. spec_label l" "v = concat (map ((#) CHR ''.'') ls)" by blast
    then have "(\<forall>x \<in> set (l # ls). spec_label x) \<and> u @ v = concat (map ((#) CHR ''.'') (l # ls))"
      by simp
    then show ?case by blast
  qed
next
  assume "\<exists>ls. (\<forall>l \<in> set ls. spec_label l) \<and> w = concat (map ((#) CHR ''.'') ls)"
  then obtain ls where "\<forall>l \<in> set ls. spec_label l" "w = concat (map ((#) CHR ''.'') ls)" by blast
  then show "w \<in> star {CHR ''.'' # l | l. spec_label l}"
  proof (induction ls arbitrary: w)
    case Nil
    then show ?case by (simp add: star.star_nil)
  next
    case (Cons l ls)
    have "CHR ''.'' # l \<in> {CHR ''.'' # l | l. spec_label l}" using Cons.prems by auto
    moreover have "concat (map ((#) CHR ''.'') ls) \<in> star {CHR ''.'' # l | l. spec_label l}"
      using Cons by simp
    ultimately have "(CHR ''.'' # l) @ concat (map ((#) CHR ''.'') ls) \<in> star {CHR ''.'' # l | l. spec_label l}"
      by (rule star.star_app)
    with Cons.prems show ?case by simp
  qed
qed

lemma dot_separated_Cons:
  "dot_separated (l # ls) = l @ concat (map ((#) CHR ''.'') ls)"
  by (induction ls arbitrary: l) simp_all

lemma dot_label_lang:
  "conc (lang (CharClass (\<lambda>c. c = CHR ''.''))) (lang labelRegex) = {CHR ''.'' # l | l. spec_label l}"
  by (auto simp: conc_single lang_labelRegex)

lemma lang_domainRegex:
  "w \<in> lang domainRegex \<longleftrightarrow>
     (\<exists>labels. labels \<noteq> [] \<and> (\<forall>l \<in> set labels. spec_label l) \<and> w = dot_separated labels)"
proof -
  have "lang domainRegex = conc (lang labelRegex) (star {CHR ''.'' # l | l. spec_label l})"
    by (simp only: domainRegex_def lang.simps(5,6) dot_label_lang)
  then have "w \<in> lang domainRegex \<longleftrightarrow>
      (\<exists>l v. w = l @ v \<and> spec_label l \<and> v \<in> star {CHR ''.'' # l | l. spec_label l})"
    by (simp only: in_conc lang_labelRegex)
  also have "\<dots> \<longleftrightarrow>
      (\<exists>l ls. w = dot_separated (l # ls) \<and> spec_label l \<and> (\<forall>x \<in> set ls. spec_label x))"
    unfolding star_dot_labels dot_separated_Cons by blast
  also have "\<dots> \<longleftrightarrow>
      (\<exists>labels. labels \<noteq> [] \<and> (\<forall>l \<in> set labels. spec_label l) \<and> w = dot_separated labels)"
  proof
    assume "\<exists>l ls. w = dot_separated (l # ls) \<and> spec_label l \<and> (\<forall>x \<in> set ls. spec_label x)"
    then obtain l ls where "w = dot_separated (l # ls)" "spec_label l" "\<forall>x \<in> set ls. spec_label x"
      by blast
    then have "l # ls \<noteq> [] \<and> (\<forall>x \<in> set (l # ls). spec_label x) \<and> w = dot_separated (l # ls)"
      by simp
    then show "\<exists>labels. labels \<noteq> [] \<and> (\<forall>l \<in> set labels. spec_label l) \<and> w = dot_separated labels"
      by (rule exI)
  next
    assume "\<exists>labels. labels \<noteq> [] \<and> (\<forall>l \<in> set labels. spec_label l) \<and> w = dot_separated labels"
    then obtain labels where a: "labels \<noteq> []" "\<forall>l \<in> set labels. spec_label l" "w = dot_separated labels"
      by blast
    from a(1) obtain l ls where "labels = l # ls" by (cases labels) simp_all
    with a(2,3) have "w = dot_separated (l # ls) \<and> spec_label l \<and> (\<forall>x \<in> set ls. spec_label x)"
      by simp
    then show "\<exists>l ls. w = dot_separated (l # ls) \<and> spec_label l \<and> (\<forall>x \<in> set ls. spec_label x)"
      by blast
  qed
  finally show ?thesis .
qed

lemma lang_local:
  "w \<in> lang (OneOrMore (CharClass localChar)) \<longleftrightarrow> w \<noteq> [] \<and> (\<forall>c \<in> set w. localChar c)"
proof -
  have "w \<in> lang (OneOrMore (CharClass localChar)) \<longleftrightarrow>
          (\<exists>c v. w = c # v \<and> localChar c \<and> (\<forall>x \<in> set v. localChar x))"
    by (simp add: OneOrMore_def conc_class_left star_class)
  also have "\<dots> \<longleftrightarrow> w \<noteq> [] \<and> (\<forall>c \<in> set w. localChar c)"
    by (cases w) auto
  finally show ?thesis .
qed

lemma emailRegex_domain:
  "emailRegex = Concat (OneOrMore (CharClass localChar))
       (Concat (CharClass (\<lambda>c. c = CHR ''@'')) domainRegex)"
  by (simp add: emailRegex_def domainRegex_def)

lemma lang_emailRegex:
  "w \<in> lang emailRegex \<longleftrightarrow>
     (\<exists>local_part labels.
        w = local_part @ ''@'' @ dot_separated labels
        \<and> local_part \<noteq> [] \<and> (\<forall>c \<in> set local_part. localChar c)
        \<and> labels \<noteq> [] \<and> (\<forall>l \<in> set labels. spec_label l))"
proof -
  have "w \<in> lang emailRegex \<longleftrightarrow>
     (\<exists>u v. w = u @ ''@'' @ v \<and> u \<in> lang (OneOrMore (CharClass localChar)) \<and> v \<in> lang domainRegex)"
  proof -
    have "conc {[c] | c. c = CHR ''@''} (lang domainRegex) = {''@'' @ v | v. v \<in> lang domainRegex}"
      by (auto simp: conc_single)
    then have "lang emailRegex =
        conc (lang (OneOrMore (CharClass localChar))) {''@'' @ v | v. v \<in> lang domainRegex}"
      by (simp only: emailRegex_domain lang.simps(3,5))
    then have "w \<in> lang emailRegex \<longleftrightarrow>
        w \<in> conc (lang (OneOrMore (CharClass localChar))) {''@'' @ v | v. v \<in> lang domainRegex}"
      by (rule arg_cong)
    also have "\<dots> \<longleftrightarrow> (\<exists>u v. w = u @ ''@'' @ v \<and> u \<in> lang (OneOrMore (CharClass localChar)) \<and> v \<in> lang domainRegex)"
      unfolding in_conc by blast
    finally show ?thesis .
  qed
  also have "\<dots> \<longleftrightarrow> (\<exists>local_part labels.
        w = local_part @ ''@'' @ dot_separated labels
        \<and> local_part \<noteq> [] \<and> (\<forall>c \<in> set local_part. localChar c)
        \<and> labels \<noteq> [] \<and> (\<forall>l \<in> set labels. spec_label l))"
    unfolding lang_local lang_domainRegex by blast
  finally show ?thesis .
qed

lemma isValidEmail_iff_spec: "isValidEmail S \<longleftrightarrow> spec_address S"
  by (simp add: isValidEmail_def regex_test_def matches_lang lang_emailRegex spec_address_def
      spec_shape_def)

lemma isValidEmail_length: "isValidEmail S \<Longrightarrow> length S \<le> 254"
  by (simp add: isValidEmail_def)

lemma accepts_short_address: "isValidEmail ''a@b.co''"
  by code_simp

lemma rejects_plain_word: "\<not> isValidEmail ''not-an-email''"
  by code_simp

lemma long_address_shape: "spec_shape (replicate 249 CHR ''a'' @ ''@b.com'')"
proof -
  have "spec_label ''b''" "spec_label ''com''"
    by (simp_all add: spec_label_def alnum_def)
  moreover have "\<forall>c \<in> set (replicate 249 CHR ''a''). localChar c"
    by (simp add: localChar_def alnum_def)
  moreover have "replicate 249 CHR ''a'' \<noteq> []"
    by simp
  moreover have "replicate 249 CHR ''a'' @ ''@b.com''
      = replicate 249 CHR ''a'' @ ''@'' @ dot_separated [''b'', ''com'']"
    by simp
  ultimately show ?thesis
    unfolding spec_shape_def
    by (intro exI [of _ "replicate 249 CHR ''a''"] exI [of _ "[''b'', ''com'']"]) simp
qed

section \<open>Claims about the email validator\<close>

text \<open>
  Claim C1. For every string \<open>S\<close> the validator \<^const>\<open>isValidEmail\<close> returns true
  exactly when \<open>S\<close> has the shape local-part\<^verbatim>\<open>@\<close>domain, where the domain is a
  dot-separated sequence of labels, each label alphanumeric with hyphens only inside and
  1 to 63 characters long, and \<open>S\<close> has at most 254 characters. In particular
  \<^verbatim>\<open>a@b.co\<close> is accepted, \<^verbatim>\<open>not-an-email\<close> is rejected, and an address of that
  shape with 255 characters is rejected.
\<close>

theorem isValidEmail_spec:
  "(\<forall>S. isValidEmail S \<longleftrightarrow> spec_address S)
   \<and> isValidEmail ''a@b.co''
   \<and> \<not> isValidEmail ''not-an-email''
   \<and> length (replicate 249 CHR ''a'' @ ''@b.com'') = 255
   \<and> spec_shape (replicate 249 CHR ''a'' @ ''@b.com'')
   \<and> \<not> isValidEmail (replicate 249 CHR ''a'' @ ''@b.com'')"
proof -
  have "\<not> isValidEmail (replicate 249 CHR ''a'' @ ''@b.com'')"
    using isValidEmail_length [of "replicate 249 CHR ''a'' @ ''@b.com''"] by auto
  then show ?thesis
    using isValidEmail_iff_spec accepts_short_address rejects_plain_word long_address_shape
    by simp
qed

theorem isValidEmail_spec_witness:
  "isValidEmail ''x.y@mail.example-1.org'' \<and> spec_address ''x.y@mail.example-1.org''"
proof -
  have "isValidEmail ''x.y@mail.example-1.org''"
    by code_simp
  then show ?thesis
    using isValidEmail_spec by simp
qed

section \<open>Claims about the waitlist form's initializer\<close>

text \<open>
  Claim C10. If the form element \<^verbatim>\<open>waitlistForm\<close> or the success panel
  \<^verbatim>\<open>waitlistSuccess\<close> is absent from the document, \<^const>\<open>initWaitlistForm\<close> returns
  without attaching a submit handler and without changing the page, so a later submit
  event is not intercepted (the event's default is not prevented and the page stays as it
  was) and no error is raised: the function returns a page, never an exception.
\<close>

theorem initWaitlistForm_absent:
  assumes "getElementById ''waitlistForm'' p = None \<or> getElementById ''waitlistSuccess'' p = None"
  shows "initWaitlistForm p = p
    \<and> (listeners p = [] \<longrightarrow>
         dispatchSubmit (listeners (initWaitlistForm p)) tgt ev e (initWaitlistForm p) = (e, p))"
proof -
  have "initWaitlistForm p = p"
    using assms by (auto simp: initWaitlistForm_def split: option.splits)
  then show ?thesis by simp
qed

theorem initWaitlistForm_absent_witness:
  "initWaitlistForm ((examplePage [])\<lparr>document := [0, 1, 2]\<rparr>)
     = (examplePage [])\<lparr>document := [0, 1, 2]\<rparr>
   \<and> dispatchSubmit (listeners (initWaitlistForm ((examplePage [])\<lparr>document := [0, 1, 2]\<rparr>))) 0
        (exampleEnv (Response True) False) \<lparr>defaultPrevented = False\<rparr>
        (initWaitlistForm ((examplePage [])\<lparr>document := [0, 1, 2]\<rparr>))
     = (\<lparr>defaultPrevented = False\<rparr>, (examplePage [])\<lparr>document := [0, 1, 2]\<rparr>)"
proof -
  have absent: "getElementById ''waitlistSuccess'' ((examplePage [])\<lparr>document := [0, 1, 2]\<rparr>) = None"
    by (simp add: getElementById_def examplePage_def exampleHeap_def getAttribute_def
        newElement_def)
  have none: "listeners ((examplePage [])\<lparr>document := [0, 1, 2]\<rparr>) = []"
    by (simp add: examplePage_def)
  show ?thesis
    using initWaitlistForm_absent [of "(examplePage [])\<lparr>document := [0, 1, 2]\<rparr>" 0
        "exampleEnv (Response True) False" "\<lparr>defaultPrevented = False\<rparr>"] absent none
    by simp
qed

section \<open>Claims about the bootstrap\<close>

lemma tryBlock_stops:
  "tryBlock before p = (None, q) \<Longrightarrow> g q = (Some err, q')
     \<Longrightarrow> tryBlock (before @ g # after) p = (Some err, q')"
proof (induction before arbitrary: p)
  case Nil
  then show ?case by simp
next
  case (Cons f fs)
  then show ?case
    by (cases "f p") (auto split: option.splits)
qed

text \<open>
  Claim C3, as the specification states it: if one initializer throws during
  \<^const>\<open>init\<close>, the error is caught and logged and the other initializers still run.
  The six calls share one \<^verbatim>\<open>try\<close> block, so this fails: with the form and the
  panel both present, \<^const>\<open>initWaitlistForm\<close> attaches its submit handler when it runs,
  but when the scroll animations' initializer throws before it, \<^const>\<open>init\<close> ends with
  no handler attached.
\<close>

theorem init_isolation_counterexample:
  "listeners (initWaitlistForm (examplePage [])) = [(0, ''submit'', HandleFormSubmit 0 3)]
   \<and> listeners (init (\<lambda>p. (Some (Error ''unsupported''), p)) (returning initWaitlistForm)
         (returning id) (returning id) (returning id) (returning id) (examplePage [])) = []"
  by (simp add: init_def returning_def consoleError_def initWaitlistForm_def addEventListener_def
      getElementById_def examplePage_def exampleHeap_def getAttribute_def newElement_def)

text \<open>
  Claim C3, amended. \<^const>\<open>init\<close> never lets an exception escape. When all six
  initializers return, each has run, in order. When one of them throws, the error is
  caught and logged to the console, the initializers before it have run, and the
  initializers after it are not run: the resulting page does not depend on them.
\<close>

theorem init_catches_and_stops:
  "(tryBlock [f1, f2, f3, f4, f5, f6] p = (None, q) \<longrightarrow> init f1 f2 f3 f4 f5 f6 p = q)
   \<and> ([f1, f2, f3, f4, f5, f6] = before @ g # after \<longrightarrow> tryBlock before p = (None, q)
        \<longrightarrow> g q = (Some err, q')
        \<longrightarrow> init f1 f2 f3 f4 f5 f6 p = consoleError ''Vector FX: Initialization error'' err q')"
  using tryBlock_stops [of before p q g err q' after]
  by (auto simp: init_def)

theorem init_catches_and_stops_witness:
  "init (returning initScrollAnimations) (returning initWaitlistForm) (returning id)
      (returning id) (returning id) (returning id) (examplePage [])
     = initWaitlistForm (initScrollAnimations (examplePage []))
   \<and> init (returning initScrollAnimations) (\<lambda>p. (Some (Error ''unsupported''), p)) (returning id)
      (returning id) (returning id) (returning id) (examplePage [])
     = consoleError ''Vector FX: Initialization error'' (Error ''unsupported'')
         (initScrollAnimations (examplePage []))"
proof
  have all: "tryBlock [returning initScrollAnimations, returning initWaitlistForm, returning id,
      returning id, returning id, returning id] (examplePage [])
     = (None, initWaitlistForm (initScrollAnimations (examplePage [])))"
    by (simp add: returning_def)
  show "init (returning initScrollAnimations) (returning initWaitlistForm) (returning id)
      (returning id) (returning id) (returning id) (examplePage [])
     = initWaitlistForm (initScrollAnimations (examplePage []))"
    by (rule init_catches_and_stops [THEN conjunct1, rule_format, OF all])
next
  have parts: "[returning initScrollAnimations, \<lambda>p. (Some (Error ''unsupported''), p),
      returning id, returning id, returning id, returning id]
     = [returning initScrollAnimations] @ (\<lambda>p. (Some (Error ''unsupported''), p))
         # [returning id, returning id, returning id, returning id]"
    by (simp only: append.simps)
  have before: "tryBlock [returning initScrollAnimations] (examplePage [])
     = (None, initScrollAnimations (examplePage []))"
    by (simp add: returning_def)
  have throws: "(\<lambda>p. (Some (Error ''unsupported''), p)) (initScrollAnimations (examplePage []))
     = (Some (Error ''unsupported''), initScrollAnimations (examplePage []))"
    by (rule refl)
  show "init (returning initScrollAnimations) (\<lambda>p. (Some (Error ''unsupported''), p)) (returning id)
      (returning id) (returning id) (returning id) (examplePage [])
     = consoleError ''Vector FX: Initialization error'' (Error ''unsupported'')
         (initScrollAnimations (examplePage []))"
    by (rule init_catches_and_stops [THEN conjunct2, rule_format, OF parts before throws])
qed

section \<open>Claims about the scroll reveal\<close>

lemma timers_forEachEntry:
  "timers (forEachEntry n es p) =
     timers p @ map staggerTimer (filter (\<lambda>ie. isIntersecting (snd ie)) (enumerate n es))"
proof (induction es arbitrary: n p)
  case Nil
  show ?case by simp
next
  case (Cons e es)
  show ?case
    by (simp add: Cons.IH seq_def setTimeout_def unobserve_def staggerTimer_def)
qed

text \<open>
  Claim C5, as the specification states it: the \<open>k\<close>-th intersecting element of a
  batch, counting only the intersecting elements, becomes visible after
  \<open>min (k * 100) 500\<close> milliseconds. The callback uses the position in the whole batch
  instead: in a batch whose first entry does not intersect, the first intersecting
  element is scheduled after 100 ms, not after 0 ms.
\<close>

theorem stagger_delay_counterexample:
  "filter isIntersecting exampleBatch ! 0 = \<lparr>target = 5, isIntersecting = True\<rparr>
   \<and> timers (observerCallback exampleBatch (examplePage [])) = [(AddClass 5 ''visible'', 100)]
   \<and> (AddClass (target (filter isIntersecting exampleBatch ! 0)) ''visible'', min (0 * 100) 500)
        \<notin> set (timers (observerCallback exampleBatch (examplePage [])))"
  by (simp add: exampleBatch_def observerCallback_def seq_def setTimeout_def unobserve_def
      examplePage_def)

text \<open>
  Claim C5, amended. Within one batch of intersection events, the entry at position
  \<open>i\<close> of the batch (counting every entry, intersecting or not), when it intersects,
  is marked visible by a timer with a delay of exactly \<open>min (i * 100) 500\<close>
  milliseconds; the callback schedules these timers and no others.
\<close>

theorem stagger_delay_by_batch_index:
  "timers (observerCallback entries p) =
     timers p @ map staggerTimer (filter (\<lambda>ie. isIntersecting (snd ie)) (enumerate 0 entries))
   \<and> (\<forall>i < length entries. isIntersecting (entries ! i) \<longrightarrow>
        (AddClass (target (entries ! i)) ''visible'', min (i * 100) 500)
          \<in> set (timers (observerCallback entries p)))"
proof -
  have eq: "timers (observerCallback entries p) =
     timers p @ map staggerTimer (filter (\<lambda>ie. isIntersecting (snd ie)) (enumerate 0 entries))"
    by (simp add: observerCallback_def timers_forEachEntry)
  have "(AddClass (target (entries ! i)) ''visible'', min (i * 100) 500)
          \<in> set (timers (observerCallback entries p))"
    if "i < length entries" "isIntersecting (entries ! i)" for i
  proof -
    from that(1) have "(i, entries ! i) \<in> set (enumerate 0 entries)"
      by (simp add: in_set_enumerate_eq)
    with that(2) have "(i, entries ! i)
        \<in> set (filter (\<lambda>ie. isIntersecting (snd ie)) (enumerate 0 entries))"
      by simp
    then have "staggerTimer (i, entries ! i)
        \<in> staggerTimer ` set (filter (\<lambda>ie. isIntersecting (snd ie)) (enumerate 0 entries))"
      by (rule imageI)
    then show ?thesis
      unfolding eq by (simp add: staggerTimer_def)
  qed
  with eq show ?thesis by blast
qed

theorem stagger_delay_by_batch_index_witness:
  "(AddClass 5 ''visible'', 100) \<in> set (timers (observerCallback exampleBatch (examplePage [])))"
proof -
  have "1 < length exampleBatch \<longrightarrow> isIntersecting (exampleBatch ! 1) \<longrightarrow>
        (AddClass (target (exampleBatch ! 1)) ''visible'', min (1 * 100) 500)
          \<in> set (timers (observerCallback exampleBatch (examplePage [])))"
    using stagger_delay_by_batch_index [of exampleBatch "examplePage []"] by blast
  moreover have "1 < length exampleBatch" "isIntersecting (exampleBatch ! 1)"
    "target (exampleBatch ! 1) = 5"
    by (simp_all add: exampleBatch_def)
  ultimately show ?thesis by simp
qed

lemma revealNow_heap:
  "heap (revealNow x p) = (heap p)(x := (heap p x)\<lparr>style :=
      AList.update ''transform'' (Text ''none'') (AList.update ''opacity'' (Text ''1'') (style (heap p x)))\<rparr>)"
  by (simp add: revealNow_def seq_def setStyle_def modify_def)

lemma revealNow_rest:
  "revealNow x p = p\<lparr>heap := heap (revealNow x p)\<rparr>"
  by (simp add: revealNow_def seq_def setStyle_def modify_def)

lemma fold_revealNow_rest:
  "fold revealNow rs p = p\<lparr>heap := heap (fold revealNow rs p)\<rparr>"
proof (induction rs arbitrary: p)
  case Nil
  show ?case by simp
next
  case (Cons x xs)
  have "fold revealNow (x # xs) p = fold revealNow xs (revealNow x p)" by simp
  also have "\<dots> = (revealNow x p)\<lparr>heap := heap (fold revealNow xs (revealNow x p))\<rparr>"
    by (rule Cons.IH)
  also have "\<dots> = p\<lparr>heap := heap (fold revealNow xs (revealNow x p))\<rparr>"
    by (subst revealNow_rest) simp
  finally show ?case by simp
qed

lemma fold_revealNow_other:
  "r \<notin> set rs \<Longrightarrow> heap (fold revealNow rs p) r = heap p r"
  by (induction rs arbitrary: p) (simp_all add: revealNow_heap)

lemma fold_revealNow_classList:
  "classList (heap (fold revealNow rs p) r) = classList (heap p r)"
  by (induction rs arbitrary: p) (simp_all add: revealNow_heap)

lemma fold_revealNow_style:
  "r \<in> set rs \<Longrightarrow>
     getStyle (heap (fold revealNow rs p) r) ''opacity'' = Some (Text ''1'')
     \<and> getStyle (heap (fold revealNow rs p) r) ''transform'' = Some (Text ''none'')"
proof (induction rs arbitrary: p)
  case Nil
  then show ?case by simp
next
  case (Cons x xs)
  show ?case
  proof (cases "r \<in> set xs")
    case True
    then show ?thesis using Cons.IH [of "revealNow x p"] by simp
  next
    case False
    with Cons.prems have "r = x" by simp
    with False have "heap (fold revealNow (x # xs) p) r = heap (revealNow x p) x"
      by (simp add: fold_revealNow_other)
    then show ?thesis
      by (simp add: revealNow_heap getStyle_def update_conv')
  qed
qed

lemma initScrollAnimations_fallback:
  "\<not> hasIntersectionObserver p \<Longrightarrow>
     initScrollAnimations p
       = fold revealNow (querySelectorAll (hasClass ''animate-on-scroll'') p) p"
  by (simp add: initScrollAnimations_def revealNow_def [abs_def])

text \<open>
  Claim C9, amended. If \<^verbatim>\<open>IntersectionObserver\<close> is unavailable,
  \<^const>\<open>initScrollAnimations\<close> gives full opacity and no transform to every element
  of the document that already carries the class \<^verbatim>\<open>animate-on-scroll\<close>, leaves
  every other element as it is, adds no class, and changes nothing on the page but these
  elements' styles: it creates no observer and does not fail.
\<close>

theorem fallback_reveals_marked_elements:
  assumes "\<not> hasIntersectionObserver p"
  shows "(\<forall>r \<in> set (document p). hasClass ''animate-on-scroll'' (heap p r) \<longrightarrow>
            getStyle (heap (initScrollAnimations p) r) ''opacity'' = Some (Text ''1'')
            \<and> getStyle (heap (initScrollAnimations p) r) ''transform'' = Some (Text ''none''))
    \<and> (\<forall>r. \<not> (r \<in> set (document p) \<and> hasClass ''animate-on-scroll'' (heap p r)) \<longrightarrow>
            heap (initScrollAnimations p) r = heap p r)
    \<and> (\<forall>r. classList (heap (initScrollAnimations p) r) = classList (heap p r))
    \<and> initScrollAnimations p = p\<lparr>heap := heap (initScrollAnimations p)\<rparr>"
proof -
  let ?rs = "querySelectorAll (hasClass ''animate-on-scroll'') p"
  have eq: "initScrollAnimations p = fold revealNow ?rs p"
    using assms by (rule initScrollAnimations_fallback)
  have mem: "r \<in> set ?rs \<longleftrightarrow> r \<in> set (document p) \<and> hasClass ''animate-on-scroll'' (heap p r)" for r
    by (auto simp: querySelectorAll_def)
  have a: "getStyle (heap (initScrollAnimations p) r) ''opacity'' = Some (Text ''1'')
            \<and> getStyle (heap (initScrollAnimations p) r) ''transform'' = Some (Text ''none'')"
    if "r \<in> set (document p)" "hasClass ''animate-on-scroll'' (heap p r)" for r
    unfolding eq using that mem [of r] by (intro fold_revealNow_style) simp
  have b: "heap (initScrollAnimations p) r = heap p r"
    if "\<not> (r \<in> set (document p) \<and> hasClass ''animate-on-scroll'' (heap p r))" for r
    unfolding eq using that mem [of r] by (intro fold_revealNow_other) simp
  have c: "classList (heap (initScrollAnimations p) r) = classList (heap p r)" for r
    unfolding eq by (rule fold_revealNow_classList)
  have d: "initScrollAnimations p = p\<lparr>heap := heap (initScrollAnimations p)\<rparr>"
    unfolding eq by (rule fold_revealNow_rest)
  from a b c d show ?thesis by blast
qed

lemma example_marked:
  "querySelectorAll (hasClass ''animate-on-scroll'') ((examplePage [])\<lparr>hasIntersectionObserver := False\<rparr>) = [5]"
  by (simp add: querySelectorAll_def examplePage_def exampleHeap_def hasClass_def newElement_def)

text \<open>
  Claim C9, as the specification states it: the fallback marks visible every element
  that would otherwise have been registered for observation. The fallback selects by the
  marker class \<^verbatim>\<open>animate-on-scroll\<close>, which the script itself adds only on the
  other path. On the example page elements 4 and 5 are registered when the observer
  exists, but without it element 4, which has no marker class in its markup, gets neither
  the opacity nor the transform.
\<close>

theorem fallback_counterexample:
  "map_option targets (observer (initScrollAnimations (examplePage []))) = Some [4, 5]
   \<and> getStyle (heap (initScrollAnimations ((examplePage [])\<lparr>hasIntersectionObserver := False\<rparr>)) 4)
        ''opacity'' = None
   \<and> getStyle (heap (initScrollAnimations ((examplePage [])\<lparr>hasIntersectionObserver := False\<rparr>)) 4)
        ''transform'' = None"
proof -
  have sel: "querySelectorAll animatedSelector (examplePage []) = [4, 5]"
    by (simp add: querySelectorAll_def examplePage_def exampleHeap_def hasClass_def newElement_def
        animatedSelector_def)
  have obs: "hasIntersectionObserver (examplePage [])"
    by (simp add: examplePage_def)
  have "map_option targets (observer (initScrollAnimations (examplePage []))) = Some [4, 5]"
    by (simp add: initScrollAnimations_def obs sel seq_def observe_def observerOptions_def
        classList_add_def modify_def)
  moreover have "heap (initScrollAnimations ((examplePage [])\<lparr>hasIntersectionObserver := False\<rparr>)) 4
      = heap (examplePage []) 4"
    by (simp add: initScrollAnimations_fallback example_marked revealNow_heap)
  ultimately show ?thesis
    by (simp add: examplePage_def exampleHeap_def getStyle_def newElement_def)
qed

theorem fallback_reveals_marked_elements_witness:
  "getStyle (heap (initScrollAnimations ((examplePage [])\<lparr>hasIntersectionObserver := False\<rparr>)) 5)
      ''opacity'' = Some (Text ''1'')
   \<and> getStyle (heap (initScrollAnimations ((examplePage [])\<lparr>hasIntersectionObserver := False\<rparr>)) 5)
      ''transform'' = Some (Text ''none'')
   \<and> heap (initScrollAnimations ((examplePage [])\<lparr>hasIntersectionObserver := False\<rparr>)) 4
      = heap ((examplePage [])\<lparr>hasIntersectionObserver := False\<rparr>) 4"
proof -
  let ?p = "(examplePage [])\<lparr>hasIntersectionObserver := False\<rparr>"
  have no: "\<not> hasIntersectionObserver ?p" by simp
  have five: "5 \<in> set (document ?p)" "hasClass ''animate-on-scroll'' (heap ?p 5)"
    by (simp_all add: examplePage_def exampleHeap_def hasClass_def newElement_def)
  have four: "\<not> (4 \<in> set (document ?p) \<and> hasClass ''animate-on-scroll'' (heap ?p 4))"
    by (simp add: examplePage_def exampleHeap_def hasClass_def newElement_def)
  from fallback_reveals_marked_elements [OF no] five four show ?thesis
    by blast
qed

section \<open>Claims about the submit handler\<close>

lemma announceToScreenReader_eq:
  "announceToScreenReader message p =
     p\<lparr>heap := (heap p)(nextRef p := announcementElement message),
       nextRef := Suc (nextRef p),
       document := document p @ [nextRef p],
       timers := timers p @ [(RemoveElement (nextRef p), 1000)]\<rparr>"
  by (simp add: announceToScreenReader_def createElement_def seq_def setAttribute_def
      setClassName_def setTextContent_def appendToBody_def setTimeout_def modify_def
      announcementElement_def newElement_def)

lemma shakeElement_eq:
  "shakeElement r p =
     p\<lparr>heap := (heap p)(r := (heap p r)\<lparr>
          style := AList.update ''border-color'' (Text ''#ef4444'')
                     (AList.update ''animation'' (Text ''shake 0.5s ease'') (style (heap p r))),
          attributes := AList.update ''aria-invalid'' ''true'' (attributes (heap p r))\<rparr>),
       timers := timers p @ [(ShakeReset r, 500)]\<rparr>"
  by (simp add: shakeElement_def seq_def setStyle_def setAttribute_def setTimeout_def modify_def)

lemma not_valid_empty: "\<not> isValidEmail []"
  by code_simp

text \<open>
  Claim C2. For every submit event where the trimmed value of the email field is empty
  or rejected by the validator, the handler issues no network request, invokes the shake
  feedback on the field and the assistive announcement, and returns leaving the form in
  its idle, enabled state: every element that existed before, other than the email field
  itself, is unchanged (in particular the submit button and the form). The email field
  is an element found in the form, with a reference that has been allocated.
\<close>

theorem invalid_email_no_request:
  assumes field: "querySelectorIn form emailInputSelector p = Some emailInput"
    and existing: "emailInput < nextRef p"
    and invalid: "trim (valueProp (heap p emailInput)) = []
                  \<or> \<not> isValidEmail (trim (valueProp (heap p emailInput)))"
  shows "\<exists>q. handleFormSubmit form successMessage ev e p = (e\<lparr>defaultPrevented := True\<rparr>, Inr q)
     \<and> q = announceToScreenReader ''Please enter a valid email address''
             (focus emailInput (shakeElement emailInput p))
     \<and> network q = network p
     \<and> getAttribute (heap q emailInput) ''aria-invalid'' = Some ''true''
     \<and> getStyle (heap q emailInput) ''animation'' = Some (Text ''shake 0.5s ease'')
     \<and> activeElement q = Some emailInput
     \<and> document q = document p @ [nextRef p]
     \<and> heap q (nextRef p) = announcementElement ''Please enter a valid email address''
     \<and> timers q = timers p @ [(ShakeReset emailInput, 500), (RemoveElement (nextRef p), 1000)]
     \<and> (\<forall>r < nextRef p. r \<noteq> emailInput \<longrightarrow> heap q r = heap p r)
     \<and> listeners q = listeners p \<and> console q = console p \<and> gtagCalls q = gtagCalls p"
proof -
  let ?q = "announceToScreenReader ''Please enter a valid email address''
             (focus emailInput (shakeElement emailInput p))"
  have run: "handleFormSubmit form successMessage ev e p = (e\<lparr>defaultPrevented := True\<rparr>, Inr ?q)"
    using field invalid by (auto simp: handleFormSubmit_def Let_def seq_def)
  have q: "?q = p\<lparr>heap := (heap p)(emailInput := (heap p emailInput)\<lparr>
          style := AList.update ''border-color'' (Text ''#ef4444'')
                     (AList.update ''animation'' (Text ''shake 0.5s ease'')
                        (style (heap p emailInput))),
          attributes := AList.update ''aria-invalid'' ''true'' (attributes (heap p emailInput))\<rparr>,
          nextRef p := announcementElement ''Please enter a valid email address''),
       nextRef := Suc (nextRef p),
       document := document p @ [nextRef p],
       timers := timers p @ [(ShakeReset emailInput, 500), (RemoveElement (nextRef p), 1000)],
       activeElement := Some emailInput\<rparr>"
    by (simp add: announceToScreenReader_eq shakeElement_eq focus_def)
  have facts: "network ?q = network p
     \<and> getAttribute (heap ?q emailInput) ''aria-invalid'' = Some ''true''
     \<and> getStyle (heap ?q emailInput) ''animation'' = Some (Text ''shake 0.5s ease'')
     \<and> activeElement ?q = Some emailInput
     \<and> document ?q = document p @ [nextRef p]
     \<and> heap ?q (nextRef p) = announcementElement ''Please enter a valid email address''
     \<and> timers ?q = timers p @ [(ShakeReset emailInput, 500), (RemoveElement (nextRef p), 1000)]
     \<and> (\<forall>r < nextRef p. r \<noteq> emailInput \<longrightarrow> heap ?q r = heap p r)
     \<and> listeners ?q = listeners p \<and> console ?q = console p \<and> gtagCalls ?q = gtagCalls p"
    unfolding q using existing by (simp add: getAttribute_def getStyle_def update_conv')
  from run facts show ?thesis by blast
qed


lemma example_emailInput:
  "querySelectorIn 0 emailInputSelector (examplePage v) = Some 1"
  by (simp add: querySelectorIn_def examplePage_def exampleHeap_def emailInputSelector_def
      getAttribute_def newElement_def)

lemma example_submitBtn:
  "querySelectorIn 0 submitButtonSelector (examplePage v) = Some 2"
  by (simp add: querySelectorIn_def examplePage_def exampleHeap_def submitButtonSelector_def
      getAttribute_def newElement_def)

lemma example_value: "valueProp (heap (examplePage v) 1) = v"
  by (simp add: examplePage_def exampleHeap_def newElement_def)

lemma trim_plain_word: "trim ''not-an-email'' = ''not-an-email''"
  by (simp add: trim_def isWhiteSpace_def)

lemma trim_padded_address: "trim '' a@b.co '' = ''a@b.co''"
  by (simp add: trim_def isWhiteSpace_def)

theorem invalid_email_no_request_witness:
  "\<exists>q. handleFormSubmit 0 3 (exampleEnv (Response True) False) \<lparr>defaultPrevented = False\<rparr>
          (examplePage ''not-an-email'') = (\<lparr>defaultPrevented = True\<rparr>, Inr q)
     \<and> network q = []
     \<and> getAttribute (heap q 1) ''aria-invalid'' = Some ''true''
     \<and> heap q 6 = announcementElement ''Please enter a valid email address''
     \<and> heap q 2 = heap (examplePage ''not-an-email'') 2"
proof -
  have invalid: "trim (valueProp (heap (examplePage ''not-an-email'') 1)) = []
      \<or> \<not> isValidEmail (trim (valueProp (heap (examplePage ''not-an-email'') 1)))"
    by (simp only: example_value trim_plain_word rejects_plain_word) simp
  have existing: "1 < nextRef (examplePage ''not-an-email'')"
    by (simp add: examplePage_def)
  from invalid_email_no_request [OF example_emailInput existing invalid,
      of 3 "exampleEnv (Response True) False" "\<lparr>defaultPrevented = False\<rparr>"]
  obtain q where q:
    "handleFormSubmit 0 3 (exampleEnv (Response True) False) \<lparr>defaultPrevented = False\<rparr>
          (examplePage ''not-an-email'') = (\<lparr>defaultPrevented = False\<rparr>\<lparr>defaultPrevented := True\<rparr>, Inr q)"
    "network q = network (examplePage ''not-an-email'')"
    "getAttribute (heap q 1) ''aria-invalid'' = Some ''true''"
    "heap q (nextRef (examplePage ''not-an-email''))
       = announcementElement ''Please enter a valid email address''"
    "\<forall>r < nextRef (examplePage ''not-an-email''). r \<noteq> 1 \<longrightarrow> heap q r = heap (examplePage ''not-an-email'') r"
    by blast
  have "nextRef (examplePage ''not-an-email'') = 6" "network (examplePage ''not-an-email'') = []"
    by (simp_all add: examplePage_def)
  with q show ?thesis by simp
qed

lemma submitTry_failure:
  "fetchResult ev = NetworkError \<or> fetchResult ev = Response False \<Longrightarrow>
     \<exists>err. submitTry form successMessage ev email p =
       (Some err, p\<lparr>network := network p @
          [\<lparr>url = formAction form p, httpMethod = ''POST'',
            headers = [(''Accept'', ''application/json'')], body = formData form p\<rparr>]\<rparr>)"
  by (auto simp: submitTry_def fetch_def)

text \<open>
  Claim C4. For every submission that fails, by a network error or by a response that is
  not a success, the handler re-enables the submit button, sets its busy marker to false,
  restores its original label and announces an error to assistive technology. The form
  stays visible and can be submitted again (no existing element other than the button
  changes and the listeners stay), and exactly one request was sent: nothing is retried.
  The email field and the submit button are elements found in the form.
\<close>

theorem failed_submission_recovers:
  assumes field: "querySelectorIn form emailInputSelector p = Some emailInput"
    and button: "querySelectorIn form submitButtonSelector p = Some submitBtn"
    and existing: "submitBtn < nextRef p"
    and valid: "isValidEmail (trim (valueProp (heap p emailInput)))"
    and failure: "fetchResult ev = NetworkError \<or> fetchResult ev = Response False"
  shows "\<exists>q err req. handleFormSubmit form successMessage ev e p = (e\<lparr>defaultPrevented := True\<rparr>, Inr q)
     \<and> disabled (heap q submitBtn) = False
     \<and> getAttribute (heap q submitBtn) ''aria-busy'' = Some ''false''
     \<and> innerHTML (heap q submitBtn) = innerHTML (heap p submitBtn)
     \<and> document q = document p @ [nextRef p]
     \<and> heap q (nextRef p) = announcementElement ''There was an error. Please try again.''
     \<and> (\<forall>r < nextRef p. r \<noteq> submitBtn \<longrightarrow> heap q r = heap p r)
     \<and> network q = network p @ [req]
     \<and> console q = console p @ [ConsoleError ''Form submission error:'' err]
     \<and> listeners q = listeners p \<and> gtagCalls q = gtagCalls p
     \<and> timers q = timers p @ [(RemoveElement (nextRef p), 1000)]"
proof -
  let ?email = "trim (valueProp (heap p emailInput))"
  let ?p1 = "seq [setDisabled submitBtn True, setAttribute submitBtn ''aria-busy'' ''true'',
        setInnerHTML submitBtn ''<span>Joining...</span>''] p"
  from valid have nonempty: "?email \<noteq> []"
    using not_valid_empty by auto
  from submitTry_failure [OF failure, of form successMessage ?email ?p1]
  obtain err where attempt:
    "submitTry form successMessage ev ?email ?p1 =
       (Some err, ?p1\<lparr>network := network ?p1 @
          [\<lparr>url = formAction form ?p1, httpMethod = ''POST'',
            headers = [(''Accept'', ''application/json'')], body = formData form ?p1\<rparr>]\<rparr>)"
    by blast
  let ?req = "\<lparr>url = formAction form ?p1, httpMethod = ''POST'',
            headers = [(''Accept'', ''application/json'')], body = formData form ?p1\<rparr>"
  let ?q = "seq [consoleError ''Form submission error:'' err,
                 setDisabled submitBtn False,
                 setAttribute submitBtn ''aria-busy'' ''false'',
                 setInnerHTML submitBtn (innerHTML (heap p submitBtn)),
                 announceToScreenReader ''There was an error. Please try again.'']
              (?p1\<lparr>network := network ?p1 @ [?req]\<rparr>)"
  have run: "handleFormSubmit form successMessage ev e p = (e\<lparr>defaultPrevented := True\<rparr>, Inr ?q)"
    using field button valid nonempty attempt by (simp add: handleFormSubmit_def Let_def)
  have facts: "disabled (heap ?q submitBtn) = False
     \<and> getAttribute (heap ?q submitBtn) ''aria-busy'' = Some ''false''
     \<and> innerHTML (heap ?q submitBtn) = innerHTML (heap p submitBtn)
     \<and> document ?q = document p @ [nextRef p]
     \<and> heap ?q (nextRef p) = announcementElement ''There was an error. Please try again.''
     \<and> (\<forall>r < nextRef p. r \<noteq> submitBtn \<longrightarrow> heap ?q r = heap p r)
     \<and> network ?q = network p @ [?req]
     \<and> console ?q = console p @ [ConsoleError ''Form submission error:'' err]
     \<and> listeners ?q = listeners p \<and> gtagCalls ?q = gtagCalls p
     \<and> timers ?q = timers p @ [(RemoveElement (nextRef p), 1000)]"
    using existing
    by (simp add: seq_def announceToScreenReader_eq consoleError_def setDisabled_def
        setAttribute_def setInnerHTML_def modify_def getAttribute_def update_conv')
  from run facts show ?thesis by blast
qed

theorem failed_submission_recovers_witness:
  "\<exists>q err req. handleFormSubmit 0 3 (exampleEnv (Response False) False) \<lparr>defaultPrevented = False\<rparr>
          (examplePage '' a@b.co '') = (\<lparr>defaultPrevented = True\<rparr>, Inr q)
     \<and> disabled (heap q 2) = False
     \<and> getAttribute (heap q 2) ''aria-busy'' = Some ''false''
     \<and> innerHTML (heap q 2) = ''Join''
     \<and> heap q 6 = announcementElement ''There was an error. Please try again.''
     \<and> heap q 0 = heap (examplePage '' a@b.co '') 0
     \<and> network q = [req]
     \<and> console q = [ConsoleError ''Form submission error:'' err]"
proof -
  have valid: "isValidEmail (trim (valueProp (heap (examplePage '' a@b.co '') 1)))"
    by (simp only: example_value trim_padded_address accepts_short_address)
  have existing: "2 < nextRef (examplePage '' a@b.co '')"
    by (simp add: examplePage_def)
  have failure: "fetchResult (exampleEnv (Response False) False) = NetworkError
      \<or> fetchResult (exampleEnv (Response False) False) = Response False"
    by (simp add: exampleEnv_def)
  from failed_submission_recovers [OF example_emailInput example_submitBtn existing valid failure,
      of 3 "\<lparr>defaultPrevented = False\<rparr>"]
  obtain q err req where q:
    "handleFormSubmit 0 3 (exampleEnv (Response False) False) \<lparr>defaultPrevented = False\<rparr>
          (examplePage '' a@b.co '') = (\<lparr>defaultPrevented = False\<rparr>\<lparr>defaultPrevented := True\<rparr>, Inr q)"
    "disabled (heap q 2) = False"
    "getAttribute (heap q 2) ''aria-busy'' = Some ''false''"
    "innerHTML (heap q 2) = innerHTML (heap (examplePage '' a@b.co '') 2)"
    "heap q (nextRef (examplePage '' a@b.co ''))
       = announcementElement ''There was an error. Please try again.''"
    "\<forall>r < nextRef (examplePage '' a@b.co ''). r \<noteq> 2 \<longrightarrow> heap q r = heap (examplePage '' a@b.co '') r"
    "network q = network (examplePage '' a@b.co '') @ [req]"
    "console q = console (examplePage '' a@b.co '') @ [ConsoleError ''Form submission error:'' err]"
    by blast
  have "nextRef (examplePage '' a@b.co '') = 6" "network (examplePage '' a@b.co '') = []"
    "console (examplePage '' a@b.co '') = []"
    "innerHTML (heap (examplePage '' a@b.co '') 2) = ''Join''"
    by (simp_all add: examplePage_def exampleHeap_def newElement_def)
  with q have "handleFormSubmit 0 3 (exampleEnv (Response False) False) \<lparr>defaultPrevented = False\<rparr>
          (examplePage '' a@b.co '') = (\<lparr>defaultPrevented = True\<rparr>, Inr q)
     \<and> disabled (heap q 2) = False
     \<and> getAttribute (heap q 2) ''aria-busy'' = Some ''false''
     \<and> innerHTML (heap q 2) = ''Join''
     \<and> heap q 6 = announcementElement ''There was an error. Please try again.''
     \<and> heap q 0 = heap (examplePage '' a@b.co '') 0
     \<and> network q = [req]
     \<and> console q = [ConsoleError ''Form submission error:'' err]"
    by simp
  then show ?thesis by blast
qed

section \<open>Claims about the confetti effect\<close>

lemma nextRef_heap_swap:
  "p\<lparr>nextRef := a, heap := h\<rparr> = p\<lparr>heap := h, nextRef := a\<rparr>"
  by (cases p) simp

lemma confettiLoop_step:
  "i < confettiCount \<Longrightarrow>
     confettiLoop rnd i fragment p =
       confettiLoop rnd (Suc i) (fragment @ [nextRef p])
         (p\<lparr>heap := (heap p)(nextRef p := confettiElement rnd i), nextRef := Suc (nextRef p)\<rparr>)"
  by (subst confettiLoop.simps)
    (simp add: createElement_def seq_def setCssText_def setAttribute_def modify_def
      confettiElement_def newElement_def nextRef_heap_swap)

lemma confettiLoop_done:
  "\<not> i < confettiCount \<Longrightarrow> confettiLoop rnd i fragment p = (fragment, p)"
  by (subst confettiLoop.simps) simp

lemma confettiLoop_eq:
  "confettiCount - i = k \<Longrightarrow> i \<le> confettiCount \<Longrightarrow>
     confettiLoop rnd i fragment p =
       (fragment @ [nextRef p ..< nextRef p + k],
        p\<lparr>heap := (\<lambda>r. if nextRef p \<le> r \<and> r < nextRef p + k
                          then confettiElement rnd (i + (r - nextRef p)) else heap p r),
          nextRef := nextRef p + k\<rparr>)"
proof (induction k arbitrary: i fragment p)
  case 0
  then have "\<not> i < confettiCount" by simp
  moreover have "(\<lambda>r. if nextRef p \<le> r \<and> r < nextRef p + 0
                 then confettiElement rnd (i + (r - nextRef p)) else heap p r) = heap p"
    by (rule ext) auto
  ultimately show ?case by (simp add: confettiLoop_done)
next
  case (Suc k)
  then have lt: "i < confettiCount" and rest: "confettiCount - Suc i = k" "Suc i \<le> confettiCount"
    by simp_all
  let ?p2 = "p\<lparr>heap := (heap p)(nextRef p := confettiElement rnd i), nextRef := Suc (nextRef p)\<rparr>"
  have frag: "(fragment @ [nextRef p]) @ [Suc (nextRef p) ..< nextRef p + Suc k]
      = fragment @ [nextRef p ..< nextRef p + Suc k]"
    by (simp add: upt_rec [of "nextRef p"])
  have hp: "(\<lambda>r. if Suc (nextRef p) \<le> r \<and> r < nextRef p + Suc k
                 then confettiElement rnd (Suc i + (r - Suc (nextRef p)))
                 else ((heap p)(nextRef p := confettiElement rnd i)) r)
      = (\<lambda>r. if nextRef p \<le> r \<and> r < nextRef p + Suc k
                 then confettiElement rnd (i + (r - nextRef p)) else heap p r)"
  proof
    fix r
    show "(if Suc (nextRef p) \<le> r \<and> r < nextRef p + Suc k
                 then confettiElement rnd (Suc i + (r - Suc (nextRef p)))
                 else ((heap p)(nextRef p := confettiElement rnd i)) r)
      = (if nextRef p \<le> r \<and> r < nextRef p + Suc k
                 then confettiElement rnd (i + (r - nextRef p)) else heap p r)"
    proof (cases "Suc (nextRef p) \<le> r")
      case True
      then have "Suc i + (r - Suc (nextRef p)) = i + (r - nextRef p)" by simp
      with True show ?thesis by auto
    next
      case False
      then show ?thesis by auto
    qed
  qed
  have "confettiLoop rnd i fragment p = confettiLoop rnd (Suc i) (fragment @ [nextRef p]) ?p2"
    using lt by (rule confettiLoop_step)
  also have "\<dots> = ((fragment @ [nextRef p]) @ [nextRef ?p2 ..< nextRef ?p2 + k],
        ?p2\<lparr>heap := (\<lambda>r. if nextRef ?p2 \<le> r \<and> r < nextRef ?p2 + k
                          then confettiElement rnd (Suc i + (r - nextRef ?p2)) else heap ?p2 r),
          nextRef := nextRef ?p2 + k\<rparr>)"
    using rest by (rule Suc.IH)
  also have "\<dots> = (fragment @ [nextRef p ..< nextRef p + Suc k],
        p\<lparr>heap := (\<lambda>r. if nextRef p \<le> r \<and> r < nextRef p + Suc k
                          then confettiElement rnd (i + (r - nextRef p)) else heap p r),
          nextRef := nextRef p + Suc k\<rparr>)"
  proof -
    have sel: "nextRef ?p2 = Suc (nextRef p)"
      "heap ?p2 = (heap p)(nextRef p := confettiElement rnd i)"
      by simp_all
    have upd: "?p2\<lparr>heap := H, nextRef := N\<rparr> = p\<lparr>heap := H, nextRef := N\<rparr>" for H N
      by simp
    have cnt: "Suc (nextRef p) + k = nextRef p + Suc k"
      by simp
    show ?thesis
      unfolding sel upd cnt unfolding frag hp by (rule refl)
  qed
  finally show ?case .
qed

lemma createConfetti_eq:
  "createConfetti rnd p =
     p\<lparr>heap := (\<lambda>r. if nextRef p \<le> r \<and> r < nextRef p + confettiCount
                       then confettiElement rnd (r - nextRef p) else heap p r),
       nextRef := nextRef p + confettiCount,
       document := document p @ [nextRef p ..< nextRef p + confettiCount],
       timers := timers p @ [(ConfettiCleanup, 4000)]\<rparr>"
  using confettiLoop_eq [of 0 confettiCount rnd "[]" p]
  by (simp add: createConfetti_def seq_def appendToBody_def setTimeout_def cong: if_cong)


lemma document_fold_removeElement:
  "document (fold removeElement rs p) = filter (\<lambda>r. r \<notin> set rs) (document p)"
proof (induction rs arbitrary: p)
  case Nil
  show ?case by simp
next
  case (Cons x xs)
  have "filter (\<lambda>r. r \<notin> set xs) (removeAll x ys)
      = filter (\<lambda>r. r \<notin> set (x # xs)) ys" for ys :: "ref list"
    by (induction ys) auto
  moreover have "document (removeElement x p) = removeAll x (document p)"
    by (simp add: removeElement_def)
  ultimately show ?case
    by (simp add: Cons.IH)
qed

lemma document_ConfettiCleanup:
  "document (runCallback ConfettiCleanup p)
     = filter (\<lambda>r. \<not> styleContains ''confettiFall'' (heap p r)) (document p)"
  by (simp add: runCallback_def document_fold_removeElement querySelectorAll_def cong: filter_cong)

lemma confettiElement_selected: "styleContains ''confettiFall'' (confettiElement rnd i)"
  by (simp add: styleContains_def confettiElement_def confettiStyle_def Let_def)

lemma confettiElement_ranges:
  assumes "\<forall>n. 0 \<le> rnd n \<and> rnd n < 1"
  shows "\<exists>size duration opacity.
      getStyle (confettiElement rnd i) ''width'' = Some (Px size)
      \<and> getStyle (confettiElement rnd i) ''height'' = Some (Px size)
      \<and> 5 \<le> size \<and> size \<le> 15
      \<and> getStyle (confettiElement rnd i) ''animation''
            = Some (Anim ''confettiFall'' duration ''linear forwards'')
      \<and> 2 \<le> duration \<and> duration \<le> 4
      \<and> getStyle (confettiElement rnd i) ''opacity'' = Some (Num opacity)
      \<and> 3 / 10 \<le> opacity \<and> opacity \<le> 1"
proof -
  from assms have a: "0 \<le> rnd (6 * i)" "rnd (6 * i) < 1" "0 \<le> rnd (6 * i + 1)"
    "rnd (6 * i + 1) < 1" "0 \<le> rnd (6 * i + 4)" "rnd (6 * i + 4) < 1"
    by simp_all
  have "getStyle (confettiElement rnd i) ''width'' = Some (Px (rnd (6 * i) * 10 + 5))"
    "getStyle (confettiElement rnd i) ''height'' = Some (Px (rnd (6 * i) * 10 + 5))"
    "getStyle (confettiElement rnd i) ''animation''
        = Some (Anim ''confettiFall'' (rnd (6 * i + 1) * 2 + 2) ''linear forwards'')"
    "getStyle (confettiElement rnd i) ''opacity'' = Some (Num (rnd (6 * i + 4) * 0.7 + 0.3))"
    by (simp_all add: getStyle_def confettiElement_def confettiStyle_def Let_def)
  moreover have "5 \<le> rnd (6 * i) * 10 + 5" "rnd (6 * i) * 10 + 5 \<le> 15"
    "2 \<le> rnd (6 * i + 1) * 2 + 2" "rnd (6 * i + 1) * 2 + 2 \<le> 4"
    "3 / 10 \<le> rnd (6 * i + 4) * 0.7 + 0.3" "rnd (6 * i + 4) * 0.7 + 0.3 \<le> 1"
    using a by simp_all
  ultimately show ?thesis by blast
qed

lemma confettiElement_hidden:
  "getAttribute (confettiElement rnd i) ''aria-hidden'' = Some ''true''
   \<and> getStyle (confettiElement rnd i) ''pointer-events'' = Some (Text ''none'')"
  by (simp add: getAttribute_def getStyle_def confettiElement_def confettiStyle_def Let_def)

text \<open>
  Claim C8. Every invocation of \<^const>\<open>createConfetti\<close> spawns exactly 50 elements,
  each with a size between 5 and 15 px, a fall duration between 2 and 4 s and an opacity
  between 0.3 and 1.0, marked \<^verbatim>\<open>aria-hidden\<close> and not interactive
  (\<^verbatim>\<open>pointer-events: none\<close>); the invocation schedules a cleanup with a delay of
  4000 ms, and that cleanup removes every spawned element from the document. The values
  of \<^verbatim>\<open>Math.random\<close> are taken as real numbers in the interval from 0 (included) to
  1 (excluded).
\<close>

theorem createConfetti_spawns_fifty:
  assumes "\<forall>n. 0 \<le> rnd n \<and> rnd n < 1"
  shows "document (createConfetti rnd p) = document p @ [nextRef p ..< nextRef p + 50]
    \<and> length [nextRef p ..< nextRef p + 50] = 50
    \<and> (\<forall>r \<in> set [nextRef p ..< nextRef p + 50].
          \<exists>size duration opacity.
            getStyle (heap (createConfetti rnd p) r) ''width'' = Some (Px size)
            \<and> getStyle (heap (createConfetti rnd p) r) ''height'' = Some (Px size)
            \<and> 5 \<le> size \<and> size \<le> 15
            \<and> getStyle (heap (createConfetti rnd p) r) ''animation''
                  = Some (Anim ''confettiFall'' duration ''linear forwards'')
            \<and> 2 \<le> duration \<and> duration \<le> 4
            \<and> getStyle (heap (createConfetti rnd p) r) ''opacity'' = Some (Num opacity)
            \<and> 3 / 10 \<le> opacity \<and> opacity \<le> 1)
    \<and> (\<forall>r \<in> set [nextRef p ..< nextRef p + 50].
          getAttribute (heap (createConfetti rnd p) r) ''aria-hidden'' = Some ''true''
          \<and> getStyle (heap (createConfetti rnd p) r) ''pointer-events'' = Some (Text ''none''))
    \<and> (\<forall>r < nextRef p. heap (createConfetti rnd p) r = heap p r)
    \<and> timers (createConfetti rnd p) = timers p @ [(ConfettiCleanup, 4000)]
    \<and> (\<forall>r \<in> set [nextRef p ..< nextRef p + 50].
          r \<notin> set (document (runCallback ConfettiCleanup (createConfetti rnd p))))"
proof -
  let ?q = "createConfetti rnd p"
  have new: "heap ?q r = confettiElement rnd (r - nextRef p)"
    if "r \<in> set [nextRef p ..< nextRef p + 50]" for r
    using that by (simp add: createConfetti_eq confettiCount_def)
  have old: "heap ?q r = heap p r" if "r < nextRef p" for r
    using that by (simp add: createConfetti_eq)
  have doc: "document ?q = document p @ [nextRef p ..< nextRef p + 50]"
    by (simp add: createConfetti_eq confettiCount_def)
  have tm: "timers ?q = timers p @ [(ConfettiCleanup, 4000)]"
    by (simp add: createConfetti_eq)
  have gone: "r \<notin> set (document (runCallback ConfettiCleanup ?q))"
    if "r \<in> set [nextRef p ..< nextRef p + 50]" for r
    using new [OF that] by (simp add: document_ConfettiCleanup confettiElement_selected)
  show ?thesis
    using doc tm old gone new confettiElement_ranges [OF assms] confettiElement_hidden
    by (simp del: set_upt)
qed


theorem createConfetti_spawns_fifty_witness:
  "document (createConfetti (random (exampleEnv (Response True) False)) (examplePage []))
      = [0, 1, 2, 3, 4, 5] @ [6 ..< 56]
   \<and> length [6 ..< 56 :: nat] = 50
   \<and> timers (createConfetti (random (exampleEnv (Response True) False)) (examplePage []))
      = [(ConfettiCleanup, 4000)]
   \<and> getAttribute (heap (createConfetti (random (exampleEnv (Response True) False))
        (examplePage [])) 6) ''aria-hidden'' = Some ''true''
   \<and> 6 \<notin> set (document (runCallback ConfettiCleanup
        (createConfetti (random (exampleEnv (Response True) False)) (examplePage []))))"
proof -
  let ?rnd = "random (exampleEnv (Response True) False)"
  have unit: "\<forall>n. 0 \<le> ?rnd n \<and> ?rnd n < 1"
    by (simp add: exampleEnv_def)
  have page: "nextRef (examplePage []) = 6" "document (examplePage []) = [0, 1, 2, 3, 4, 5]"
    "timers (examplePage []) = []"
    by (simp_all add: examplePage_def)
  have six: "(6::nat) \<in> set [6 ..< 6 + 50]"
    by simp
  note inst = createConfetti_spawns_fifty [OF unit, of "examplePage []", unfolded page]
  from inst have doc:
    "document (createConfetti ?rnd (examplePage [])) = [0, 1, 2, 3, 4, 5] @ [6 ..< 6 + 50]"
    by (rule conjunct1)
  from inst have len: "length [6 ..< 6 + 50 :: nat] = 50"
    by blast
  from inst have tm:
    "timers (createConfetti ?rnd (examplePage [])) = [] @ [(ConfettiCleanup, 4000)]"
    by blast
  from inst have hidden: "\<forall>r \<in> set [6 ..< 6 + 50].
        getAttribute (heap (createConfetti ?rnd (examplePage [])) r) ''aria-hidden'' = Some ''true''
        \<and> getStyle (heap (createConfetti ?rnd (examplePage [])) r) ''pointer-events''
            = Some (Text ''none'')"
    by blast
  from inst have gone: "\<forall>r \<in> set [6 ..< 6 + 50].
        r \<notin> set (document (runCallback ConfettiCleanup (createConfetti ?rnd (examplePage []))))"
    by blast
  from hidden six have h6:
    "getAttribute (heap (createConfetti ?rnd (examplePage [])) 6) ''aria-hidden'' = Some ''true''"
    by blast
  from gone six have g6:
    "6 \<notin> set (document (runCallback ConfettiCleanup (createConfetti ?rnd (examplePage []))))"
    by blast
  from doc len tm h6 g6 show ?thesis
    by simp
qed

section \<open>Claims about the analytics event\<close>

lemma split_without: "sep \<notin> set w \<Longrightarrow> split sep w = [w]"
  by (induction w) auto

lemma split_at_first: "sep \<notin> set u \<Longrightarrow> split sep (u @ sep # v) = u # split sep v"
  by (induction u) auto

lemma localChar_not_at: "localChar c \<Longrightarrow> c \<noteq> CHR ''@''"
  by (auto simp: localChar_def alnum_def)

lemma spec_label_no_at: "spec_label l \<Longrightarrow> CHR ''@'' \<notin> set l"
  by (auto simp: spec_label_def alnum_def)

lemma dot_separated_no_at:
  "\<forall>l \<in> set ls. CHR ''@'' \<notin> set l \<Longrightarrow> CHR ''@'' \<notin> set (dot_separated ls)"
  by (induction ls rule: dot_separated.induct) auto

lemma valid_email_parts:
  assumes "isValidEmail email"
  shows "\<exists>local_part domain. email = local_part @ ''@'' @ domain \<and> local_part \<noteq> []
     \<and> CHR ''@'' \<notin> set local_part \<and> CHR ''@'' \<notin> set domain
     \<and> elementAt (split CHR ''@'' email) 1 = Some domain"
proof -
  from assms have "spec_shape email"
    by (simp add: isValidEmail_iff_spec spec_address_def)
  then obtain local_part labels where parts:
    "email = local_part @ ''@'' @ dot_separated labels" "local_part \<noteq> []"
    "\<forall>c \<in> set local_part. localChar c" "\<forall>l \<in> set labels. spec_label l"
    unfolding spec_shape_def by blast
  from parts(3) have l: "CHR ''@'' \<notin> set local_part"
    using localChar_not_at by blast
  from parts(4) have d: "CHR ''@'' \<notin> set (dot_separated labels)"
    by (intro dot_separated_no_at) (simp add: spec_label_no_at)
  have "split CHR ''@'' email = [local_part, dot_separated labels]"
    using l d by (simp add: parts(1) split_at_first split_without)
  then have "elementAt (split CHR ''@'' email) 1 = Some (dot_separated labels)"
    by (simp add: elementAt_def)
  with parts(1,2) l d show ?thesis by blast
qed

lemma createConfetti_logs:
  "gtagCalls (createConfetti rnd p) = gtagCalls p \<and> console (createConfetti rnd p) = console p
   \<and> network (createConfetti rnd p) = network p \<and> listeners (createConfetti rnd p) = listeners p"
  by (simp add: createConfetti_eq)

lemma announce_logs:
  "gtagCalls (announceToScreenReader m p) = gtagCalls p
   \<and> console (announceToScreenReader m p) = console p
   \<and> network (announceToScreenReader m p) = network p
   \<and> listeners (announceToScreenReader m p) = listeners p"
  by (simp add: announceToScreenReader_eq)

text \<open>
  Claim C7. On every successful submission the analytics event carries only the domain
  portion of the submitted address, the substring after the \<^verbatim>\<open>@\<close>, never the full
  address: a validated address splits in exactly one way into a local part, the
  \<^verbatim>\<open>@\<close> and a domain, and the data handed to \<^verbatim>\<open>gtag\<close> and to the
  development log is the domain alone, so it contains no local part and is the same for
  all addresses of one domain.
\<close>

theorem analytics_carries_domain_only:
  assumes field: "querySelectorIn form emailInputSelector p = Some emailInput"
    and button: "querySelectorIn form submitButtonSelector p = Some submitBtn"
    and valid: "isValidEmail (trim (valueProp (heap p emailInput)))"
    and success: "fetchResult ev = Response True"
  shows "\<exists>q local_part domain.
       handleFormSubmit form successMessage ev e p = (e\<lparr>defaultPrevented := True\<rparr>, Inr q)
     \<and> trim (valueProp (heap p emailInput)) = local_part @ ''@'' @ domain
     \<and> local_part \<noteq> [] \<and> CHR ''@'' \<notin> set local_part \<and> CHR ''@'' \<notin> set domain
     \<and> gtagCalls q = gtagCalls p @
          (if gtagDefined ev
           then [(''event'', ''waitlist_signup'', [(''email_domain'', Some domain)])] else [])
     \<and> console q = console p @
          (if hostname ev = ''localhost'' \<or> hostname ev = ''127.0.0.1''
           then [ConsoleLog ''Track Event:'' ''waitlist_signup'' [(''email_domain'', Some domain)]]
           else [])"
proof -
  let ?email = "trim (valueProp (heap p emailInput))"
  from valid_email_parts [OF valid] obtain local_part domain where parts:
    "?email = local_part @ ''@'' @ domain" "local_part \<noteq> []"
    "CHR ''@'' \<notin> set local_part" "CHR ''@'' \<notin> set domain"
    "elementAt (split CHR ''@'' ?email) 1 = Some domain"
    by blast
  from valid have nonempty: "?email \<noteq> []"
    using not_valid_empty by auto
  let ?p1 = "seq [setDisabled submitBtn True, setAttribute submitBtn ''aria-busy'' ''true'',
        setInnerHTML submitBtn ''<span>Joining...</span>''] p"
  let ?req = "\<lparr>url = formAction form ?p1, httpMethod = ''POST'',
            headers = [(''Accept'', ''application/json'')], body = formData form ?p1\<rparr>"
  let ?q1 = "announceToScreenReader ''Success! You're on the waitlist. We'll be in touch soon.''
      (classList_add successMessage ''show'' (setStyle form ''display'' (Text ''none'')
        (fetch ?req ?p1)))"
  let ?q2 = "(if \<not> prefersReducedMotion ev then createConfetti (random ev) else id) ?q1"
  let ?q = "trackEvent ev ''waitlist_signup'' [(''email_domain'', Some domain)] ?q2"
  have attempt: "submitTry form successMessage ev ?email ?p1 = (None, ?q)"
    using success parts(5) by (simp add: submitTry_def seq_def Let_def)
  have run: "handleFormSubmit form successMessage ev e p = (e\<lparr>defaultPrevented := True\<rparr>, Inr ?q)"
    using field button valid nonempty attempt by (simp add: handleFormSubmit_def Let_def)
  have p1: "gtagCalls ?p1 = gtagCalls p" "console ?p1 = console p"
    by (simp_all add: seq_def setDisabled_def setAttribute_def setInnerHTML_def modify_def)
  have q1: "gtagCalls ?q1 = gtagCalls p" "console ?q1 = console p"
    using p1 by (simp_all add: announce_logs classList_add_def setStyle_def modify_def fetch_def)
  have q2: "gtagCalls ?q2 = gtagCalls p" "console ?q2 = console p"
    using q1 by (simp_all add: createConfetti_logs)
  have "gtagCalls ?q = gtagCalls p @
          (if gtagDefined ev
           then [(''event'', ''waitlist_signup'', [(''email_domain'', Some domain)])] else [])"
    "console ?q = console p @
          (if hostname ev = ''localhost'' \<or> hostname ev = ''127.0.0.1''
           then [ConsoleLog ''Track Event:'' ''waitlist_signup'' [(''email_domain'', Some domain)]]
           else [])"
    using q2 by (auto simp: trackEvent_def seq_def)
  with run parts show ?thesis by blast
qed

theorem analytics_carries_domain_only_witness:
  "\<exists>q. handleFormSubmit 0 3 (exampleEnv (Response True) False) \<lparr>defaultPrevented = False\<rparr>
          (examplePage '' a@b.co '') = (\<lparr>defaultPrevented = True\<rparr>, Inr q)
     \<and> gtagCalls q = [(''event'', ''waitlist_signup'', [(''email_domain'', Some ''b.co'')])]
     \<and> console q = [ConsoleLog ''Track Event:'' ''waitlist_signup'' [(''email_domain'', Some ''b.co'')]]"
proof -
  have valid: "isValidEmail (trim (valueProp (heap (examplePage '' a@b.co '') 1)))"
    by (simp only: example_value trim_padded_address accepts_short_address)
  have success: "fetchResult (exampleEnv (Response True) False) = Response True"
    by (simp add: exampleEnv_def)
  from analytics_carries_domain_only [OF example_emailInput example_submitBtn valid success,
      of 3 "\<lparr>defaultPrevented = False\<rparr>"]
  obtain q local_part domain where q:
    "handleFormSubmit 0 3 (exampleEnv (Response True) False) \<lparr>defaultPrevented = False\<rparr>
          (examplePage '' a@b.co '') = (\<lparr>defaultPrevented = False\<rparr>\<lparr>defaultPrevented := True\<rparr>, Inr q)"
    "trim (valueProp (heap (examplePage '' a@b.co '') 1)) = local_part @ ''@'' @ domain"
    "CHR ''@'' \<notin> set local_part"
    "gtagCalls q = gtagCalls (examplePage '' a@b.co '') @
          (if gtagDefined (exampleEnv (Response True) False)
           then [(''event'', ''waitlist_signup'', [(''email_domain'', Some domain)])] else [])"
    "console q = console (examplePage '' a@b.co '') @
          (if hostname (exampleEnv (Response True) False) = ''localhost''
              \<or> hostname (exampleEnv (Response True) False) = ''127.0.0.1''
           then [ConsoleLog ''Track Event:'' ''waitlist_signup'' [(''email_domain'', Some domain)]]
           else [])"
    by blast
  from q(2) have "''a@b.co'' = local_part @ ''@'' @ domain"
    by (simp only: example_value trim_padded_address)
  with q(3) have "domain = ''b.co''"
    by (cases local_part) (auto simp: Cons_eq_append_conv)
  with q(1,4,5) show ?thesis
    by (simp add: exampleEnv_def examplePage_def)
qed

section \<open>Claims about reduced motion\<close>

lemma noNew_refl: "noNewConfetti p p"
  by (simp add: noNewConfetti_def)

lemma noNew_trans: "noNewConfetti p q \<Longrightarrow> noNewConfetti q s \<Longrightarrow> noNewConfetti p s"
  unfolding noNewConfetti_def
  by (intro conjI ballI allI impI) (force | metis le_trans less_le_trans)+


lemma noNew_seq:
  "(\<And>f p. f \<in> set steps \<Longrightarrow> noNewConfetti p (f p)) \<Longrightarrow> noNewConfetti p (seq steps p)"
proof (induction steps arbitrary: p)
  case Nil
  show ?case by (simp add: seq_def noNew_refl)
next
  case (Cons f fs)
  have "noNewConfetti p (f p)" by (rule Cons.prems) simp
  moreover have "noNewConfetti (f p) (seq fs (f p))"
    by (rule Cons.IH) (simp add: Cons.prems)
  ultimately have "noNewConfetti p (seq fs (f p))" by (rule noNew_trans)
  then show ?case by (simp add: seq_def)
qed

lemma noNew_modify:
  "(\<And>el. styleContains ''confettiFall'' (f el) \<Longrightarrow> styleContains ''confettiFall'' el)
     \<Longrightarrow> noNewConfetti p (modify r f p)"
  by (auto simp: noNewConfetti_def modify_def)

lemma noNew_same_elements:
  "heap q = heap p \<Longrightarrow> nextRef q = nextRef p \<Longrightarrow> set (document q) \<subseteq> set (document p)
     \<Longrightarrow> noNewConfetti p q"
  by (auto simp: noNewConfetti_def)

lemma set_update_subset: "set (AList.update k v al) \<subseteq> insert (k, v) (set al)"
  by (induction al) auto

lemma set_delete_subset: "set (AList.delete k al) \<subseteq> set al"
  by (induction al) auto

lemma noNew_setStyle:
  "\<not> includesStr k ''confettiFall'' \<Longrightarrow> \<not> cssMentions ''confettiFall'' v
     \<Longrightarrow> noNewConfetti p (setStyle r k v p)"
  unfolding setStyle_def
proof (rule noNew_modify)
  fix el
  assume k: "\<not> includesStr k ''confettiFall''" and v: "\<not> cssMentions ''confettiFall'' v"
    and "styleContains ''confettiFall'' (el\<lparr>style := AList.update k v (style el)\<rparr>)"
  then obtain k' v' where "(k', v') \<in> set (AList.update k v (style el))"
    "includesStr k' ''confettiFall'' \<or> cssMentions ''confettiFall'' v'"
    by (auto simp: styleContains_def)
  with k v set_update_subset [of k v "style el"] have "(k', v') \<in> set (style el)"
    by auto
  with \<open>includesStr k' ''confettiFall'' \<or> cssMentions ''confettiFall'' v'\<close>
  show "styleContains ''confettiFall'' el"
    by (auto simp: styleContains_def)
qed

lemma noNew_clearStyle: "noNewConfetti p (clearStyle r k p)"
  unfolding clearStyle_def
proof (rule noNew_modify)
  fix el
  assume "styleContains ''confettiFall'' (el\<lparr>style := AList.delete k (style el)\<rparr>)"
  then show "styleContains ''confettiFall'' el"
    using set_delete_subset [of k "style el"] by (auto simp: styleContains_def)
qed

lemma noNew_setAttribute: "noNewConfetti p (setAttribute r k v p)"
  unfolding setAttribute_def by (rule noNew_modify) (simp add: styleContains_def)

lemma noNew_setDisabled: "noNewConfetti p (setDisabled r b p)"
  unfolding setDisabled_def by (rule noNew_modify) (simp add: styleContains_def)

lemma noNew_setInnerHTML: "noNewConfetti p (setInnerHTML r s p)"
  unfolding setInnerHTML_def by (rule noNew_modify) (simp add: styleContains_def)

lemma noNew_classList_add: "noNewConfetti p (classList_add r c p)"
  unfolding classList_add_def by (rule noNew_modify) (simp add: styleContains_def split: if_splits)

lemma noNew_focus: "noNewConfetti p (focus r p)"
  by (rule noNew_same_elements) (simp_all add: focus_def)

lemma noNew_setTimeout: "noNewConfetti p (setTimeout cb d p)"
  by (rule noNew_same_elements) (simp_all add: setTimeout_def)

lemma noNew_consoleError: "noNewConfetti p (consoleError m err p)"
  by (rule noNew_same_elements) (simp_all add: consoleError_def)

lemma noNew_fetch: "noNewConfetti p (fetch req p)"
  by (rule noNew_same_elements) (simp_all add: fetch_def)

lemma noNew_unobserve: "noNewConfetti p (unobserve r p)"
  by (rule noNew_same_elements) (simp_all add: unobserve_def)

lemma noNew_removeElement: "noNewConfetti p (removeElement r p)"
  by (rule noNew_same_elements) (auto simp: removeElement_def)

lemma noNew_trackEvent: "noNewConfetti p (trackEvent ev name data p)"
  by (rule noNew_same_elements) (simp_all add: trackEvent_def seq_def)

lemma noNew_announce: "noNewConfetti p (announceToScreenReader m p)"
  by (auto simp: noNewConfetti_def announceToScreenReader_eq announcementElement_def
      styleContains_def newElement_def)

lemma noNew_shakeElement: "noNewConfetti p (shakeElement r p)"
  unfolding shakeElement_def
  by (rule noNew_seq) (auto intro: noNew_setStyle noNew_setAttribute noNew_setTimeout)


lemma noNew_submitTry:
  assumes "reducedMotion ev" and "submitTry form successMessage ev email p = (res, q)"
  shows "noNewConfetti p q"
proof -
  let ?req = "\<lparr>url = formAction form p, httpMethod = ''POST'',
            headers = [(''Accept'', ''application/json'')], body = formData form p\<rparr>"
  have sent: "noNewConfetti p (fetch ?req p)"
    by (rule noNew_fetch)
  show ?thesis
  proof (cases "fetchResult ev = Response True")
    case True
    with assms have "q = seq [setStyle form ''display'' (Text ''none''),
                    classList_add successMessage ''show'',
                    announceToScreenReader
                      ''Success! You're on the waitlist. We'll be in touch soon.'',
                    id,
                    trackEvent ev ''waitlist_signup''
                      [(''email_domain'', elementAt (split CHR ''@'' email) 1)]] (fetch ?req p)"
      by (simp add: submitTry_def prefersReducedMotion_def)
    moreover have "noNewConfetti (fetch ?req p) (seq [setStyle form ''display'' (Text ''none''),
                    classList_add successMessage ''show'',
                    announceToScreenReader
                      ''Success! You're on the waitlist. We'll be in touch soon.'',
                    id,
                    trackEvent ev ''waitlist_signup''
                      [(''email_domain'', elementAt (split CHR ''@'' email) 1)]] (fetch ?req p))"
      by (rule noNew_seq)
        (auto intro: noNew_setStyle noNew_classList_add noNew_announce noNew_trackEvent noNew_refl)
    ultimately have "noNewConfetti (fetch ?req p) q" by simp
    with sent show ?thesis by (rule noNew_trans)
  next
    case False
    with assms(2) have "q = fetch ?req p"
      by (auto simp: submitTry_def Let_def split: fetchOutcome.splits if_splits)
    with sent show ?thesis by simp
  qed
qed

lemma noNew_handleFormSubmit:
  assumes "reducedMotion ev" and "handleFormSubmit form successMessage ev e p = (e', Inr q)"
  shows "noNewConfetti p q"
proof (cases "querySelectorIn form emailInputSelector p")
  case None
  with assms(2) show ?thesis by (simp add: handleFormSubmit_def)
next
  case (Some emailInput)
  let ?email = "trim (valueProp (heap p emailInput))"
  show ?thesis
  proof (cases "?email = [] \<or> \<not> isValidEmail ?email")
    case True
    with Some assms(2) have "q = seq [shakeElement emailInput, focus emailInput,
        announceToScreenReader ''Please enter a valid email address''] p"
      by (auto simp: handleFormSubmit_def Let_def)
    moreover have "noNewConfetti p (seq [shakeElement emailInput, focus emailInput,
        announceToScreenReader ''Please enter a valid email address''] p)"
      by (rule noNew_seq) (auto intro: noNew_shakeElement noNew_focus noNew_announce)
    ultimately show ?thesis by simp
  next
    case False
    show ?thesis
    proof (cases "querySelectorIn form submitButtonSelector p")
      case None
      with Some False assms(2) show ?thesis by (simp add: handleFormSubmit_def Let_def)
    next
      case (Some submitBtn)
      let ?p1 = "seq [setDisabled submitBtn True, setAttribute submitBtn ''aria-busy'' ''true'',
                      setInnerHTML submitBtn ''<span>Joining...</span>''] p"
      have busy: "noNewConfetti p ?p1"
        by (rule noNew_seq) (auto intro: noNew_setDisabled noNew_setAttribute noNew_setInnerHTML)
      obtain res q1 where attempt: "submitTry form successMessage ev ?email ?p1 = (res, q1)"
        by (cases "submitTry form successMessage ev ?email ?p1") blast
      from assms(1) attempt have tried: "noNewConfetti ?p1 q1"
        by (rule noNew_submitTry)
      show ?thesis
      proof (cases res)
        case None
        with \<open>querySelectorIn form emailInputSelector p = Some emailInput\<close> Some False attempt
          assms(2)
        have q: "q = q1" by (simp add: handleFormSubmit_def Let_def)
        from busy tried show ?thesis unfolding q by (rule noNew_trans)
      next
        case (Some err)
        with \<open>querySelectorIn form emailInputSelector p = Some emailInput\<close>
          \<open>querySelectorIn form submitButtonSelector p = Some submitBtn\<close> False attempt assms(2)
        have q: "q = seq [consoleError ''Form submission error:'' err,
                       setDisabled submitBtn False,
                       setAttribute submitBtn ''aria-busy'' ''false'',
                       setInnerHTML submitBtn (innerHTML (heap p submitBtn)),
                       announceToScreenReader ''There was an error. Please try again.''] q1"
          by (simp add: handleFormSubmit_def Let_def)
        have caught: "noNewConfetti q1 (seq [consoleError ''Form submission error:'' err,
                       setDisabled submitBtn False,
                       setAttribute submitBtn ''aria-busy'' ''false'',
                       setInnerHTML submitBtn (innerHTML (heap p submitBtn)),
                       announceToScreenReader ''There was an error. Please try again.''] q1)"
          by (rule noNew_seq)
            (auto intro: noNew_consoleError noNew_setDisabled noNew_setAttribute
              noNew_setInnerHTML noNew_announce)
        from busy tried have "noNewConfetti p q1" by (rule noNew_trans)
        from this caught show ?thesis unfolding q by (rule noNew_trans)
      qed
    qed
  qed
qed

lemma noNew_fold:
  "(\<And>x p. noNewConfetti p (f x p)) \<Longrightarrow> noNewConfetti p (fold f xs p)"
proof (induction xs arbitrary: p)
  case Nil
  show ?case by (simp add: noNew_refl)
next
  case (Cons x xs)
  have "noNewConfetti p (f x p)" by (rule Cons.prems)
  moreover have "noNewConfetti (f x p) (fold f xs (f x p))"
    by (rule Cons.IH) (rule Cons.prems)
  ultimately show ?case using noNew_trans by simp
qed

lemma noNew_runCallback: "noNewConfetti p (runCallback cb p)"
proof (cases cb)
  case (AddClass r c)
  then show ?thesis by (simp add: runCallback_def noNew_classList_add)
next
  case (ShakeReset r)
  have "noNewConfetti p (seq [clearStyle r ''animation'', clearStyle r ''border-color'',
               setAttribute r ''aria-invalid'' ''false''] p)"
    by (rule noNew_seq) (auto intro: noNew_clearStyle noNew_setAttribute)
  with ShakeReset show ?thesis by (simp add: runCallback_def)
next
  case (RemoveElement r)
  then show ?thesis by (simp add: runCallback_def noNew_removeElement)
next
  case ConfettiCleanup
  have "noNewConfetti p (fold removeElement (querySelectorAll (styleContains ''confettiFall'') p) p)"
    by (rule noNew_fold) (rule noNew_removeElement)
  with ConfettiCleanup show ?thesis by (simp add: runCallback_def)
qed

lemma noNew_forEachEntry: "noNewConfetti p (forEachEntry n es p)"
proof (induction es arbitrary: n p)
  case Nil
  show ?case by (simp add: noNew_refl)
next
  case (Cons x xs)
  let ?p1 = "if isIntersecting x then
          (let delay = min (n * 100) 500
           in seq [setTimeout (AddClass (target x) ''visible'') delay,
                   unobserve (target x)] p)
        else p"
  have "noNewConfetti p (seq [setTimeout (AddClass (target x) ''visible'') (min (n * 100) 500),
                   unobserve (target x)] p)"
    by (rule noNew_seq) (auto intro: noNew_setTimeout noNew_unobserve)
  then have "noNewConfetti p ?p1"
    by (simp add: noNew_refl)
  moreover have "noNewConfetti ?p1 (forEachEntry (Suc n) xs ?p1)"
    by (rule Cons.IH)
  ultimately have "noNewConfetti p (forEachEntry (Suc n) xs ?p1)"
    by (rule noNew_trans)
  then show ?case by simp
qed

lemma noNew_runStep:
  assumes "\<And>ev e. st = Submit ev e \<Longrightarrow> reducedMotion ev"
  shows "noNewConfetti p (runStep form successMessage st p)"
proof (cases st)
  case (Submit ev e)
  with assms have rm: "reducedMotion ev" by simp
  obtain e' res where h: "handleFormSubmit form successMessage ev e p = (e', res)"
    by (cases "handleFormSubmit form successMessage ev e p") blast
  show ?thesis
  proof (cases res)
    case (Inl err)
    with Submit h show ?thesis by (simp add: noNew_refl)
  next
    case (Inr q)
    with rm h have "noNewConfetti p q" using noNew_handleFormSubmit by blast
    with Submit h Inr show ?thesis by simp
  qed
next
  case (Timer cb)
  then show ?thesis by (simp add: noNew_runCallback)
next
  case (Intersection es)
  then show ?thesis by (simp add: observerCallback_def noNew_forEachEntry)
qed

lemma noNew_run:
  assumes "\<forall>ev e. Submit ev e \<in> set steps \<longrightarrow> reducedMotion ev"
  shows "noNewConfetti p (run form successMessage steps p)"
  using assms
proof (induction steps arbitrary: p)
  case Nil
  show ?case by (simp add: run_def noNew_refl)
next
  case (Cons st steps)
  have "noNewConfetti p (runStep form successMessage st p)"
  proof (rule noNew_runStep)
    fix ev e
    assume "st = Submit ev e"
    then have "Submit ev e \<in> set (st # steps)" by simp
    with Cons.prems show "reducedMotion ev" by blast
  qed
  moreover have "noNewConfetti (runStep form successMessage st p)
      (run form successMessage steps (runStep form successMessage st p))"
  proof (rule Cons.IH, intro allI impI)
    fix ev e
    assume "Submit ev e \<in> set steps"
    then have "Submit ev e \<in> set (st # steps)" by simp
    with Cons.prems show "reducedMotion ev" by blast
  qed
  ultimately have "noNewConfetti p (run form successMessage steps (runStep form successMessage st p))"
    by (rule noNew_trans)
  then show ?case by (simp add: run_def)
qed

text \<open>
  Claim C6. The confetti effect never runs when the reduced-motion preference is active:
  the handler calls \<^const>\<open>createConfetti\<close> only when \<^const>\<open>prefersReducedMotion\<close>
  is false, so in every run of the page (submit events, timer callbacks and observer
  batches in any order) in which each submission finds reduced motion requested, no
  confetti element appears: the elements that the cleanup selector finds in the document
  afterwards were all there before. The run starts from a page whose document holds
  only references that have been allocated.
\<close>

theorem reduced_motion_never_spawns_confetti:
  assumes "\<forall>ev e. Submit ev e \<in> set steps \<longrightarrow> reducedMotion ev"
    and "documentFresh p"
  shows "set (confettiInDocument (run form successMessage steps p)) \<subseteq> set (confettiInDocument p)"
proof
  fix r
  let ?q = "run form successMessage steps p"
  assume "r \<in> set (confettiInDocument ?q)"
  then have r: "r \<in> set (document ?q)" "styleContains ''confettiFall'' (heap ?q r)"
    by (simp_all add: confettiInDocument_def querySelectorAll_def)
  from assms(1) have nn: "noNewConfetti p ?q" by (rule noNew_run)
  with r have inp: "r \<in> set (document p)"
    unfolding noNewConfetti_def by blast
  with assms(2) have "r < nextRef p" by (simp add: documentFresh_def)
  with nn r(2) have "styleContains ''confettiFall'' (heap p r)"
    unfolding noNewConfetti_def by blast
  with inp show "r \<in> set (confettiInDocument p)"
    by (simp add: confettiInDocument_def querySelectorAll_def)
qed

theorem reduced_motion_never_spawns_confetti_witness:
  "set (confettiInDocument (run 0 3
      [Submit (exampleEnv (Response True) True) \<lparr>defaultPrevented = False\<rparr>,
       Timer (RemoveElement 6), Intersection exampleBatch,
       Submit (exampleEnv NetworkError True) \<lparr>defaultPrevented = False\<rparr>]
      (examplePage '' a@b.co ''))) = {}"
proof -
  have reduced: "\<forall>ev e. Submit ev e \<in> set
      [Submit (exampleEnv (Response True) True) \<lparr>defaultPrevented = False\<rparr>,
       Timer (RemoveElement 6), Intersection exampleBatch,
       Submit (exampleEnv NetworkError True) \<lparr>defaultPrevented = False\<rparr>]
      \<longrightarrow> reducedMotion ev"
    by (auto simp: exampleEnv_def)
  have fresh: "documentFresh (examplePage '' a@b.co '')"
    by (simp add: documentFresh_def examplePage_def)
  have none: "confettiInDocument (examplePage '' a@b.co '') = []"
    by (simp add: confettiInDocument_def querySelectorAll_def examplePage_def exampleHeap_def
        styleContains_def newElement_def)
  from reduced_motion_never_spawns_confetti [OF reduced fresh, of 0 3]
  show ?thesis
    unfolding none by simp
qed

end
